(* ===== verification/Prelude.thy ===== *)
theory Prelude
  imports Main "HOL-Library.Word"
begin

text \<open>
  Shared vocabulary of the model of \<^verbatim>\<open>src/broadcaster/common.py\<close>: Python's
  \<^verbatim>\<open>bytes\<close> as lists of 8-bit words, the exceptions the module raises or lets
  through as a datatype, exception propagation as a bind on the sum type, Python
  slicing on lists, and the little-endian base-256 conversions that Python's
  \<^verbatim>\<open>int.to_bytes\<close>, \<^verbatim>\<open>int.from_bytes\<close> and \<^verbatim>\<open>struct\<close> perform. The
  generic lemmas about them are declared into the collection \<open>codec_simps\<close>
  that the component proofs unfold with.
\<close>

named_theorems codec_simps "equations of the byte-level codecs"

type_synonym byte = "8 word"
type_synonym bytes = "byte list"
type_synonym f32 = "32 word"

text \<open>
  The exceptions of the module: \<open>ClientDisconnected\<close> is the module's own
  \<^verbatim>\<open>ClientDisconnectedException\<close>; the others are the Python built-ins the
  code can raise (\<^verbatim>\<open>struct.error\<close> is \<open>StructError\<close>; \<open>OSError\<close> stands for
  every socket failure).
\<close>

datatype exc =
    ClientDisconnected
  | OverflowError
  | StructError
  | ValueError
  | IndexError
  | UnboundLocalError
  | UnicodeEncodeError
  | UnicodeDecodeError
  | OSError

text \<open>Sequencing of two statements of which the first may raise.\<close>

definition sbind :: "exc + 'a \<Rightarrow> ('a \<Rightarrow> exc + 'b) \<Rightarrow> exc + 'b" where
  "sbind r f = (case r of Inl e \<Rightarrow> Inl e | Inr x \<Rightarrow> f x)"

text \<open>Python's \<^verbatim>\<open>xs[i:j]\<close> for non-negative bounds: never raises, clipped at the end.\<close>

definition py_slice :: "'a list \<Rightarrow> nat \<Rightarrow> nat \<Rightarrow> 'a list" where
  "py_slice xs i j = take (j - i) (drop i xs)"

text \<open>
  \<^verbatim>\<open>v.to_bytes(n, 'little')\<close> once its range check has passed, and
  \<^verbatim>\<open>int.from_bytes(bs, 'little')\<close>.
\<close>

fun int_to_le :: "nat \<Rightarrow> int \<Rightarrow> bytes" where
  "int_to_le 0 v = []"
| "int_to_le (Suc n) v = word_of_int v # int_to_le n (v div 256)"

fun int_from_le :: "bytes \<Rightarrow> int" where
  "int_from_le [] = 0"
| "int_from_le (b # bs) = uint b + 256 * int_from_le bs"

subsection \<open>Exception propagation\<close>

lemma sbind_simps [simp, codec_simps]:
  "sbind (Inl e) f = Inl e"
  "sbind (Inr x) f = f x"
  by (simp_all add: sbind_def)

lemma sbind_eq_Inr [simp]:
  "sbind r f = Inr y \<longleftrightarrow> (\<exists>x. r = Inr x \<and> f x = Inr y)"
  by (cases r) (simp_all add: sbind_def)

lemma sbind_eq_Inl:
  "sbind r f = Inl e \<longleftrightarrow> r = Inl e \<or> (\<exists>x. r = Inr x \<and> f x = Inl e)"
  by (cases r) (simp_all add: sbind_def)

subsection \<open>Slices\<close>

lemma length_py_slice [simp]:
  "length (py_slice xs i j) = min (j - i) (length xs - i)"
  by (simp add: py_slice_def)

lemma py_slice_append [codec_simps]:
  "py_slice (xs @ ys) (length xs + k) (length xs + k + n) = take n (drop k ys)"
  by (simp add: py_slice_def)

lemma py_slice_at [codec_simps]:
  "length xs = i \<Longrightarrow> py_slice (xs @ ys) i (i + n) = take n ys"
  by (simp add: py_slice_def)

lemma py_slice_offset [codec_simps]:
  "py_slice (pre @ rest) (length pre) (length pre + k) = take k rest"
  by (simp add: py_slice_def)

lemma py_slice_exact [codec_simps]:
  "length bs = k \<Longrightarrow> py_slice (pre @ bs @ post) (length pre) (length pre + k) = bs"
  by (simp add: py_slice_def)

lemma py_slice_from_0 [codec_simps]:
  "py_slice xs 0 n = take n xs"
  by (simp add: py_slice_def)

subsection \<open>Little-endian conversions\<close>

lemma byte_256_eq_0: "(256 :: byte) = 0"
  by simp

lemma length_int_to_le [simp]: "length (int_to_le n v) = n"
  by (induction n arbitrary: v) simp_all

lemma int_from_le_nonneg: "0 \<le> int_from_le bs"
  by (induction bs) simp_all

lemma int_from_le_bound: "int_from_le bs < 256 ^ length bs"
proof (induction bs)
  case Nil
  then show ?case by simp
next
  case (Cons b bs)
  have "uint b < 256" using uint_bounded [of b] by simp
  with Cons.IH show ?case by simp
qed

lemma int_from_le_to_le [codec_simps]:
  "0 \<le> v \<Longrightarrow> v < 256 ^ n \<Longrightarrow> int_from_le (int_to_le n v) = v"
proof (induction n arbitrary: v)
  case 0
  then show ?case by simp
next
  case (Suc n)
  have "0 \<le> v div 256" and "v div 256 < 256 ^ n"
    using Suc.prems by (simp_all add: Euclidean_Rings.div_less_iff_less_mult mult.commute)
  then have "int_from_le (int_to_le n (v div 256)) = v div 256"
    by (rule Suc.IH)
  then show ?case by (simp add: uint_word_of_int)
qed

lemma int_to_le_from_le [codec_simps]:
  "int_to_le (length bs) (int_from_le bs) = bs"
proof (induction bs)
  case Nil
  then show ?case by simp
next
  case (Cons b bs)
  have "(uint b + 256 * int_from_le bs) div 256 = int_from_le bs"
    using uint_bounded [of b] uint_nonnegative [of b] by simp
  moreover have "(word_of_int (uint b + 256 * int_from_le bs) :: byte) = b"
    by (simp add: byte_256_eq_0)
  ultimately show ?case using Cons.IH by simp
qed

lemma int_from_le_append:
  "int_from_le (xs @ ys) = int_from_le xs + 256 ^ length xs * int_from_le ys"
  by (induction xs) (simp_all add: algebra_simps)

lemma int_to_le_numeral [codec_simps]:
  "int_to_le (numeral k) v = word_of_int v # int_to_le (pred_numeral k) (v div 256)"
  by (simp add: numeral_eq_Suc)

lemma int_from_le_eq_0: "int_from_le bs = 0 \<longleftrightarrow> (\<forall>b\<in>set bs. b = 0)"
proof (induction bs)
  case Nil
  then show ?case by simp
next
  case (Cons b bs)
  have "0 \<le> uint b" "0 \<le> int_from_le bs"
    by (simp_all add: int_from_le_nonneg)
  then have "uint b + 256 * int_from_le bs = 0 \<longleftrightarrow> uint b = 0 \<and> int_from_le bs = 0"
    by linarith
  with Cons.IH show ?case by (simp add: uint_0_iff)
qed

text \<open>The little-endian value of a byte string is 1 exactly when it is a 1 followed by zeros.\<close>

lemma int_from_le_eq_1:
  "int_from_le bs = 1 \<longleftrightarrow>
     (case bs of [] \<Rightarrow> False | b # cs \<Rightarrow> b = 1 \<and> (\<forall>c\<in>set cs. c = 0))"
proof (cases bs)
  case Nil
  then show ?thesis by simp
next
  case (Cons b cs)
  have "0 \<le> uint b" "uint b < 256" "0 \<le> int_from_le cs"
    using uint_bounded [of b] by (simp_all add: int_from_le_nonneg)
  then have "uint b + 256 * int_from_le cs = 1 \<longleftrightarrow> uint b = 1 \<and> int_from_le cs = 0"
    by arith
  moreover have "uint b = 1 \<longleftrightarrow> b = 1"
    by (metis uint_1 word_uint_eq_iff)
  ultimately show ?thesis using Cons by (simp add: int_from_le_eq_0)
qed

end
