(* ===== verification/MessageTypes.thy ===== *)
theory MessageTypes
  imports Prelude
begin

text \<open>
  The enumerations of \<^verbatim>\<open>src/broadcaster/common.py\<close> (lines 11--44):
  \<^verbatim>\<open>MessageType\<close>, \<^verbatim>\<open>LightType\<close> and \<^verbatim>\<open>SensorFitMode\<close>, each a datatype with the
  source's members, the member's \<^verbatim>\<open>.value\<close> as a function into \<open>int\<close>, and
  Python's lookup by value \<^verbatim>\<open>MessageType(v)\<close> (which raises \<^verbatim>\<open>ValueError\<close> on
  an unknown code) as a search of the class's member list. The member list is
  the \<open>enum\<close> instance, so that quantifiers over message types evaluate.
\<close>

datatype MessageType =
    JOIN_ROOM | CREATE_ROOM | LEAVE_ROOM | LIST_ROOMS | CONTENT | CLEAR_CONTENT
  | DELETE_ROOM | CLEAR_ROOM | LIST_ROOM_CLIENTS | LIST_CLIENTS
  | COMMAND | TRANSFORM | DELETE | MESH | MATERIAL | CAMERA | LIGHT
  | MESHCONNECTION | RENAME | DUPLICATE | SEND_TO_TRASH | RESTORE_FROM_TRASH | TEXTURE

fun MessageType_value :: "MessageType \<Rightarrow> int" where
  "MessageType_value JOIN_ROOM = 1"
| "MessageType_value CREATE_ROOM = 2"
| "MessageType_value LEAVE_ROOM = 3"
| "MessageType_value LIST_ROOMS = 4"
| "MessageType_value CONTENT = 5"
| "MessageType_value CLEAR_CONTENT = 6"
| "MessageType_value DELETE_ROOM = 7"
| "MessageType_value CLEAR_ROOM = 8"
| "MessageType_value LIST_ROOM_CLIENTS = 9"
| "MessageType_value LIST_CLIENTS = 10"
| "MessageType_value COMMAND = 100"
| "MessageType_value TRANSFORM = 101"
| "MessageType_value DELETE = 102"
| "MessageType_value MESH = 103"
| "MessageType_value MATERIAL = 104"
| "MessageType_value CAMERA = 105"
| "MessageType_value LIGHT = 106"
| "MessageType_value MESHCONNECTION = 107"
| "MessageType_value RENAME = 108"
| "MessageType_value DUPLICATE = 109"
| "MessageType_value SEND_TO_TRASH = 110"
| "MessageType_value RESTORE_FROM_TRASH = 111"
| "MessageType_value TEXTURE = 112"

instantiation MessageType :: enum
begin

definition enum_MessageType :: "MessageType list" where
  "enum_MessageType =
     [JOIN_ROOM, CREATE_ROOM, LEAVE_ROOM, LIST_ROOMS, CONTENT, CLEAR_CONTENT,
      DELETE_ROOM, CLEAR_ROOM, LIST_ROOM_CLIENTS, LIST_CLIENTS,
      COMMAND, TRANSFORM, DELETE, MESH, MATERIAL, CAMERA, LIGHT,
      MESHCONNECTION, RENAME, DUPLICATE, SEND_TO_TRASH, RESTORE_FROM_TRASH, TEXTURE]"

definition enum_all_MessageType :: "(MessageType \<Rightarrow> bool) \<Rightarrow> bool" where
  "enum_all_MessageType P = list_all P (enum_class.enum :: MessageType list)"

definition enum_ex_MessageType :: "(MessageType \<Rightarrow> bool) \<Rightarrow> bool" where
  "enum_ex_MessageType P = list_ex P (enum_class.enum :: MessageType list)"

lemma UNIV_MessageType: "(UNIV :: MessageType set) = set enum_class.enum"
proof -
  have "t \<in> set (enum_class.enum :: MessageType list)" for t
    by (cases t) (simp_all add: enum_MessageType_def)
  then show ?thesis by blast
qed

instance
  by standard
    (simp_all add: UNIV_MessageType enum_all_MessageType_def enum_ex_MessageType_def
      list_all_iff list_ex_iff, simp add: enum_MessageType_def)

end

text \<open>\<^verbatim>\<open>intToMessageType\<close> (line 55): \<^verbatim>\<open>MessageType(value)\<close>.\<close>

definition intToMessageType :: "int \<Rightarrow> exc + MessageType" where
  "intToMessageType v =
     (case find (\<lambda>t. MessageType_value t = v) enum_class.enum of
        Some t \<Rightarrow> Inr t
      | None \<Rightarrow> Inl ValueError)"

datatype LightType = SPOT | SUN | POINT

fun LightType_value :: "LightType \<Rightarrow> int" where
  "LightType_value SPOT = 0"
| "LightType_value SUN = 1"
| "LightType_value POINT = 2"

datatype SensorFitMode = AUTO | VERTICAL | HORIZONTAL

fun SensorFitMode_value :: "SensorFitMode \<Rightarrow> int" where
  "SensorFitMode_value AUTO = 0"
| "SensorFitMode_value VERTICAL = 1"
| "SensorFitMode_value HORIZONTAL = 2"

subsection \<open>Codes\<close>

lemma MessageType_value_range:
  "1 \<le> MessageType_value t \<and> MessageType_value t \<le> 10 \<or>
   100 \<le> MessageType_value t \<and> MessageType_value t \<le> 112"
  by (cases t) simp_all

lemma MessageType_value_pos: "0 < MessageType_value t"
  using MessageType_value_range [of t] by linarith

lemma MessageType_value_lt_2p16: "MessageType_value t < 2 ^ 16"
  using MessageType_value_range [of t] by (simp, linarith)

text \<open>Looking a member's own code up gives the member back.\<close>

lemma intToMessageType_value [codec_simps]:
  "intToMessageType (MessageType_value t) = Inr t"
  by (cases t) (simp_all add: intToMessageType_def enum_MessageType_def)

lemma MessageType_value_inj: "inj MessageType_value"
proof (rule injI)
  fix s t
  assume "MessageType_value s = MessageType_value t"
  then have "intToMessageType (MessageType_value s) = intToMessageType (MessageType_value t)"
    by simp
  then show "s = t" by (simp add: intToMessageType_value)
qed

lemma intToMessageType_Inr:
  "intToMessageType v = Inr t \<Longrightarrow> MessageType_value t = v"
  by (auto simp: intToMessageType_def dest: find_Some_iff [THEN iffD1] split: option.splits)

lemma intToMessageType_ValueError:
  "intToMessageType v = Inl ValueError \<longleftrightarrow> v \<notin> range MessageType_value"
proof -
  have "find (\<lambda>t. MessageType_value t = v) enum_class.enum = None \<longleftrightarrow>
        (\<forall>t. MessageType_value t \<noteq> v)"
    by (simp add: find_None_iff enum_UNIV)
  then show ?thesis
    by (auto simp: intToMessageType_def split: option.splits)
qed

text \<open>C19: Looking up a member\<acute>s code gives the member back, the lookup succeeds exactly on members\<acute> codes, and every code is positive and fits 16 bits.\<close>

theorem MessageType_lookup_roundtrip:
  "intToMessageType (MessageType_value t) = Inr t \<and>
   0 < MessageType_value t \<and> MessageType_value t < 2 ^ 16 \<and>
   (intToMessageType v = Inr t \<longleftrightarrow> MessageType_value t = v)"
  using intToMessageType_value [of t] MessageType_value_pos [of t] MessageType_value_lt_2p16 [of t]
    intToMessageType_Inr [of v t]
  by auto

end
