(* ===== verification/CommandModel.thy ===== *)
theory CommandModel
  imports MessageTypes
begin

text \<open>
  The \<^verbatim>\<open>Command\<close> class of \<^verbatim>\<open>src/broadcaster/common.py\<close> (lines 218--226): a
  record of the message type, the payload bytes and the id, and its constructor,
  which draws the id from the class attribute \<^verbatim>\<open>Command._id\<close> (initially 100)
  when the caller passes \<open>0\<close>. The class attribute is process-wide state: the
  constructor takes its current value and returns the new one. Python's
  \<^verbatim>\<open>data or b''\<close> turns a missing payload (\<^verbatim>\<open>None\<close>, here \<open>None\<close>) into the
  empty one.
\<close>

record Command =
  cmd_type :: MessageType
  cmd_data :: bytes
  cmd_id :: int

definition Command_id0 :: int where
  "Command_id0 = 100"

definition Command_init :: "MessageType \<Rightarrow> bytes option \<Rightarrow> int \<Rightarrow> int \<Rightarrow> Command \<times> int" where
  "Command_init commandType data commandId class_id =
     (let c = \<lparr>cmd_type = commandType,
               cmd_data = (case data of None \<Rightarrow> [] | Some d \<Rightarrow> d),
               cmd_id = commandId\<rparr>
      in if commandId = 0 then (c\<lparr>cmd_id := class_id\<rparr>, class_id + 1) else (c, class_id))"

text \<open>A sequence of constructions, each an argument triple of the constructor,
  run one after the other in one thread.\<close>

fun Command_inits ::
  "(MessageType \<times> bytes option \<times> int) list \<Rightarrow> int \<Rightarrow> Command list \<times> int" where
  "Command_inits [] n = ([], n)"
| "Command_inits ((t, d, i) # args) n =
     (let (c, n') = Command_init t d i n; (cs, n'') = Command_inits args n' in (c # cs, n''))"

subsection \<open>Concurrent constructions\<close>

text \<open>
  \<^verbatim>\<open>Command._id\<close> is shared by every thread of the process and the constructor
  does not take the module's \<^verbatim>\<open>mutex\<close>. Under the interpreter lock a thread can
  be preempted between bytecodes, so the constructor with \<open>commandId = 0\<close> is
  three steps: \<^verbatim>\<open>self.id = Command._id\<close> (line 225), then the load and the store
  of \<^verbatim>\<open>Command._id += 1\<close> (line 226). A thread's position is \<open>Idle\<close> (not in the
  constructor), \<open>HasId m\<close> (its id is \<open>m\<close>) or \<open>Loaded m v\<close> (it has read
  \<open>v\<close> for the increment). \<open>issued\<close> logs the finished constructions, newest first.
\<close>

datatype ctor_pc = Idle | HasId int | Loaded int int

record ctor_sys =
  class_id :: int
  pcs :: "nat \<Rightarrow> ctor_pc"
  issued :: "(nat \<times> int) list"

definition ctor_init :: ctor_sys where
  "ctor_init = \<lparr>class_id = Command_id0, pcs = (\<lambda>_. Idle), issued = []\<rparr>"

inductive ctor_step :: "ctor_sys \<Rightarrow> ctor_sys \<Rightarrow> bool" where
  assign_id: "pcs s i = Idle \<Longrightarrow>
    ctor_step s (s\<lparr>pcs := (pcs s)(i := HasId (class_id s))\<rparr>)"
| load_id: "pcs s i = HasId m \<Longrightarrow>
    ctor_step s (s\<lparr>pcs := (pcs s)(i := Loaded m (class_id s))\<rparr>)"
| store_id: "pcs s i = Loaded m v \<Longrightarrow>
    ctor_step s (s\<lparr>class_id := v + 1, pcs := (pcs s)(i := Idle), issued := (i, m) # issued s\<rparr>)"

inductive ctor_reach :: "ctor_sys \<Rightarrow> bool" where
  init: "ctor_reach ctor_init"
| step: "ctor_reach s \<Longrightarrow> ctor_step s t \<Longrightarrow> ctor_reach t"

subsection \<open>The constructor\<close>

lemma Command_init_auto [codec_simps]:
  "Command_init t d 0 n =
     (\<lparr>cmd_type = t, cmd_data = (case d of None \<Rightarrow> [] | Some x \<Rightarrow> x), cmd_id = n\<rparr>, n + 1)"
  by (simp add: Command_init_def)

lemma Command_init_given [codec_simps]:
  "i \<noteq> 0 \<Longrightarrow> Command_init t d i n =
     (\<lparr>cmd_type = t, cmd_data = (case d of None \<Rightarrow> [] | Some x \<Rightarrow> x), cmd_id = i\<rparr>, n)"
  by (simp add: Command_init_def)

lemma Command_init_counter: "snd (Command_init t d i n) = (if i = 0 then n + 1 else n)"
  by (simp add: Command_init_def Let_def)

lemma Command_inits_counter_mono: "n \<le> snd (Command_inits args n)"
proof (induction args arbitrary: n)
  case Nil
  then show ?case by simp
next
  case (Cons a args)
  obtain t d i where a: "a = (t, d, i)" by (cases a) auto
  have "n \<le> snd (Command_init t d i n)" by (simp add: Command_init_counter)
  also have "\<dots> \<le> snd (Command_inits args (snd (Command_init t d i n)))" by (rule Cons.IH)
  finally show ?case by (simp add: a split_def Let_def)
qed

lemma Command_inits_auto:
  "\<forall>a\<in>set args. snd (snd a) = 0 \<Longrightarrow>
   Command_inits args n = (map (\<lambda>(k, (t, d, _)). \<lparr>cmd_type = t,
        cmd_data = (case d of None \<Rightarrow> [] | Some x \<Rightarrow> x), cmd_id = n + int k\<rparr>) (enumerate 0 args),
      n + int (length args))"
proof (induction args arbitrary: n)
  case Nil
  then show ?case by simp
next
  case (Cons a args)
  obtain t d where a: "a = (t, d, 0)" using Cons.prems by (cases a) auto
  have "Command_inits args (n + 1) = (map (\<lambda>(k, (t, d, _)). \<lparr>cmd_type = t,
        cmd_data = (case d of None \<Rightarrow> [] | Some x \<Rightarrow> x), cmd_id = n + 1 + int k\<rparr>) (enumerate 0 args),
      n + 1 + int (length args))"
    using Cons by simp
  then show ?case
    by (simp add: a Command_init_auto enumerate_Suc_eq comp_def algebra_simps split_def)
qed

subsection \<open>Concurrent constructions\<close>

inductive_cases ctor_step_cases: "ctor_step s t"

lemma ctor_step_assign: "pcs s i = Idle \<Longrightarrow> t = s\<lparr>pcs := (pcs s)(i := HasId (class_id s))\<rparr> \<Longrightarrow> ctor_step s t"
  by (simp add: ctor_step.assign_id)
lemma ctor_step_load: "pcs s i = HasId m \<Longrightarrow> t = s\<lparr>pcs := (pcs s)(i := Loaded m (class_id s))\<rparr> \<Longrightarrow> ctor_step s t"
  by (simp add: ctor_step.load_id)
lemma ctor_step_store: "pcs s i = Loaded m v \<Longrightarrow> t = s\<lparr>class_id := v + 1, pcs := (pcs s)(i := Idle), issued := (i, m) # issued s\<rparr> \<Longrightarrow> ctor_step s t"
  by (simp add: ctor_step.store_id)

lemma Command_inits_nth_id:
  assumes "\<forall>a\<in>set args. snd (snd a) = 0"
  shows "length (fst (Command_inits args n)) = length args \<and>
         (\<forall>k < length args. cmd_id (fst (Command_inits args n) ! k) = n + int k) \<and>
         snd (Command_inits args n) = n + int (length args)"
  using Command_inits_auto [OF assms, of n] by (simp add: nth_enumerate_eq split_def)

text \<open>C16: Commands constructed one after another with id 0 get strictly increasing ids, all at least the counter\<acute>s value before and below its value after.\<close>

theorem Command_inits_ids_increasing:
  assumes "\<forall>a\<in>set args. snd (snd a) = 0"
  shows "sorted_wrt (<) (map cmd_id (fst (Command_inits args n))) \<and>
         (\<forall>c\<in>set (fst (Command_inits args n)). n \<le> cmd_id c \<and> cmd_id c < snd (Command_inits args n))"
proof -
  note ids = Command_inits_nth_id [OF assms, of n]
  have "sorted_wrt (<) (map cmd_id (fst (Command_inits args n)))"
    using ids by (simp add: sorted_wrt_iff_nth_less)
  moreover have "\<forall>c\<in>set (fst (Command_inits args n)). n \<le> cmd_id c \<and> cmd_id c < snd (Command_inits args n)"
    using ids by (auto simp: in_set_conv_nth)
  ultimately show ?thesis by blast
qed

theorem Command_inits_ids_increasing_witness:
  "sorted_wrt (<) (map cmd_id (fst (Command_inits [(TRANSFORM, None, 0), (MESH, Some [1], 0), (TRANSFORM, None, 0)] Command_id0))) \<and>
   map cmd_id (fst (Command_inits [(TRANSFORM, None, 0), (MESH, Some [1], 0), (TRANSFORM, None, 0)] Command_id0)) = [100, 101, 102]"
  using Command_inits_ids_increasing [of "[(TRANSFORM, None, 0), (MESH, Some [1], 0), (TRANSFORM, None, 0)]" Command_id0]
  by (simp add: Command_id0_def Command_init_def)

text \<open>C17: With two threads constructing commands concurrently, a reachable interleaving gives two commands the same id, since the counter is not guarded by the mutex.\<close>

theorem ctor_duplicate_ids: "\<exists>s. ctor_reach s \<and> \<not> distinct (map snd (issued s))"
proof -
  let ?s0 = ctor_init
  let ?s1 = "?s0\<lparr>pcs := (pcs ?s0)(0 := HasId 100)\<rparr>"
  let ?s2 = "?s1\<lparr>pcs := (pcs ?s1)(1 := HasId 100)\<rparr>"
  let ?s3 = "?s2\<lparr>pcs := (pcs ?s2)(0 := Loaded 100 100)\<rparr>"
  let ?s4 = "?s3\<lparr>class_id := 101, pcs := (pcs ?s3)(0 := Idle), issued := (0, 100) # issued ?s3\<rparr>"
  let ?s5 = "?s4\<lparr>pcs := (pcs ?s4)(1 := Loaded 100 101)\<rparr>"
  let ?s6 = "?s5\<lparr>class_id := 102, pcs := (pcs ?s5)(1 := Idle), issued := (1, 100) # issued ?s5\<rparr>"
  have "ctor_reach ?s1" by (rule ctor_reach.step [OF ctor_reach.init ctor_step_assign [of _ 0]]) (simp_all add: ctor_init_def Command_id0_def)
  then have "ctor_reach ?s2" by (rule ctor_reach.step [OF _ ctor_step_assign [of _ 1]]) (simp_all add: ctor_init_def Command_id0_def)
  then have "ctor_reach ?s3" by (rule ctor_reach.step [OF _ ctor_step_load [of _ 0 100]]) (simp_all add: ctor_init_def Command_id0_def)
  then have "ctor_reach ?s4" by (rule ctor_reach.step [OF _ ctor_step_store [of _ 0 100 100]]) (simp_all add: ctor_init_def Command_id0_def)
  then have "ctor_reach ?s5" by (rule ctor_reach.step [OF _ ctor_step_load [of _ 1 100]]) (simp_all add: ctor_init_def Command_id0_def)
  then have "ctor_reach ?s6" by (rule ctor_reach.step [OF _ ctor_step_store [of _ 1 100 101]]) (simp_all add: ctor_init_def Command_id0_def)
  moreover have "\<not> distinct (map snd (issued ?s6))" by (simp add: ctor_init_def)
  ultimately show ?thesis by blast
qed

text \<open>C18: Under concurrent construction Command._id can decrease: a delayed store of a stale increment overwrites later ones.\<close>

theorem ctor_counter_decreases:
  "\<exists>s t. ctor_reach s \<and> ctor_step s t \<and> class_id t < class_id s"
proof -
  let ?s1 = "ctor_init\<lparr>pcs := (pcs ctor_init)(0 := HasId 100)\<rparr>"
  let ?s2 = "?s1\<lparr>pcs := (pcs ?s1)(0 := Loaded 100 100)\<rparr>"
  let ?s3 = "?s2\<lparr>pcs := (pcs ?s2)(1 := HasId 100)\<rparr>"
  let ?s4 = "?s3\<lparr>pcs := (pcs ?s3)(1 := Loaded 100 100)\<rparr>"
  let ?s5 = "?s4\<lparr>class_id := 101, pcs := (pcs ?s4)(1 := Idle), issued := (1, 100) # issued ?s4\<rparr>"
  let ?s6 = "?s5\<lparr>pcs := (pcs ?s5)(1 := HasId 101)\<rparr>"
  let ?s7 = "?s6\<lparr>pcs := (pcs ?s6)(1 := Loaded 101 101)\<rparr>"
  let ?s8 = "?s7\<lparr>class_id := 102, pcs := (pcs ?s7)(1 := Idle), issued := (1, 101) # issued ?s7\<rparr>"
  let ?s9 = "?s8\<lparr>class_id := 101, pcs := (pcs ?s8)(0 := Idle), issued := (0, 100) # issued ?s8\<rparr>"
  have "ctor_reach ?s1"
    by (rule ctor_reach.step [OF ctor_reach.init ctor_step_assign [of _ 0]])
      (simp_all add: ctor_init_def Command_id0_def)
  then have "ctor_reach ?s2"
    by (rule ctor_reach.step [OF _ ctor_step_load [of _ 0 100]]) (simp_all add: ctor_init_def Command_id0_def)
  then have "ctor_reach ?s3"
    by (rule ctor_reach.step [OF _ ctor_step_assign [of _ 1]]) (simp_all add: ctor_init_def Command_id0_def)
  then have "ctor_reach ?s4"
    by (rule ctor_reach.step [OF _ ctor_step_load [of _ 1 100]]) (simp_all add: ctor_init_def Command_id0_def)
  then have "ctor_reach ?s5"
    by (rule ctor_reach.step [OF _ ctor_step_store [of _ 1 100 100]]) (simp_all add: ctor_init_def)
  then have "ctor_reach ?s6"
    by (rule ctor_reach.step [OF _ ctor_step_assign [of _ 1]]) (simp_all add: ctor_init_def)
  then have "ctor_reach ?s7"
    by (rule ctor_reach.step [OF _ ctor_step_load [of _ 1 101]]) (simp_all add: ctor_init_def)
  then have "ctor_reach ?s8"
    by (rule ctor_reach.step [OF _ ctor_step_store [of _ 1 101 101]]) (simp_all add: ctor_init_def)
  moreover have "ctor_step ?s8 ?s9"
    by (rule ctor_step_store [of _ 0 100 100]) (simp_all add: ctor_init_def)
  moreover have "class_id ?s9 < class_id ?s8" by simp
  ultimately show ?thesis by blast
qed

end
