(* ===== verification/ScalarCodec.thy ===== *)
theory ScalarCodec
  imports Prelude
begin

text \<open>
  The fixed-width scalar codecs of \<^verbatim>\<open>src/broadcaster/common.py\<close>
  (lines 49--53 and 58--119): \<^verbatim>\<open>intToBytes\<close>/\<^verbatim>\<open>bytesToInt\<close>, booleans,
  32-bit unsigned integers, 32-bit floats, vectors and colours. Every decoder takes
  the buffer and a read offset and returns the value with the next offset, as the
  source does. The \<^verbatim>\<open>struct\<close> module is modelled for the formats the module uses
  (\<^verbatim>\<open>'f'\<close>, \<^verbatim>\<open>'I'\<close> and their repetitions) in native little-endian order with
  4-byte items; \<^verbatim>\<open>struct.unpack\<close> raises \<^verbatim>\<open>struct.error\<close> unless the buffer has
  exactly the format's size. A Python float that reaches \<^verbatim>\<open>struct.pack('f', _)\<close>
  is modelled by its 32-bit pattern (type \<open>f32\<close>): the rounding of a double to
  single precision is outside the model.
\<close>

subsection \<open>Integers and bytes\<close>

text \<open>\<^verbatim>\<open>intToBytes\<close> (line 49): \<^verbatim>\<open>int.to_bytes\<close> raises \<^verbatim>\<open>OverflowError\<close> for a
  negative value or one that does not fit the width.\<close>

definition intToBytes :: "int \<Rightarrow> nat \<Rightarrow> exc + bytes" where
  "intToBytes value sz =
     (if 0 \<le> value \<and> value < 256 ^ sz then Inr (int_to_le sz value) else Inl OverflowError)"

definition bytesToInt :: "bytes \<Rightarrow> int" where
  "bytesToInt value = int_from_le value"

subsection \<open>The struct module\<close>

datatype fmt = Fmt_f | Fmt_I

datatype pyval = PyFloat f32 | PyInt int

definition pack_f :: "f32 \<Rightarrow> bytes" where
  "pack_f x = int_to_le 4 (uint x)"

definition pack_I :: "int \<Rightarrow> exc + bytes" where
  "pack_I v = (if 0 \<le> v \<and> v < 2 ^ 32 then Inr (int_to_le 4 v) else Inl StructError)"

fun unpack_item :: "fmt \<Rightarrow> bytes \<Rightarrow> pyval" where
  "unpack_item Fmt_f bs = PyFloat (word_of_int (int_from_le bs))"
| "unpack_item Fmt_I bs = PyInt (int_from_le bs)"

fun unpack_items :: "fmt list \<Rightarrow> bytes \<Rightarrow> pyval list" where
  "unpack_items [] bs = []"
| "unpack_items (f # fs) bs = unpack_item f (take 4 bs) # unpack_items fs (drop 4 bs)"

definition struct_unpack :: "fmt list \<Rightarrow> bytes \<Rightarrow> exc + pyval list" where
  "struct_unpack fs bs =
     (if length bs = 4 * length fs then Inr (unpack_items fs bs) else Inl StructError)"

text \<open>\<^verbatim>\<open>struct.pack('nf', ...)\<close> with exactly \<open>n\<close> floats.\<close>

definition pack_floats :: "f32 list \<Rightarrow> bytes" where
  "pack_floats xs = concat (map pack_f xs)"

subsection \<open>The scalar codecs\<close>

definition encodeBool :: "bool \<Rightarrow> exc + bytes" where
  "encodeBool value = (if value then intToBytes 1 4 else intToBytes 0 4)"

definition decodeBool :: "bytes \<Rightarrow> nat \<Rightarrow> bool \<times> nat" where
  "decodeBool data index =
     (let value = bytesToInt (py_slice data index (index + 4))
      in if value = 1 then (True, index + 4) else (False, index + 4))"

definition encodeFloat :: "f32 \<Rightarrow> bytes" where
  "encodeFloat value = pack_f value"

definition decodeFloat :: "bytes \<Rightarrow> nat \<Rightarrow> exc + pyval \<times> nat" where
  "decodeFloat data index =
     sbind (struct_unpack [Fmt_f] (py_slice data index (index + 4)))
       (\<lambda>vs. Inr (vs ! 0, index + 4))"

definition encodeInt :: "int \<Rightarrow> exc + bytes" where
  "encodeInt value = pack_I value"

definition decodeInt :: "bytes \<Rightarrow> nat \<Rightarrow> exc + pyval \<times> nat" where
  "decodeInt data index =
     sbind (struct_unpack [Fmt_I] (py_slice data index (index + 4)))
       (\<lambda>vs. Inr (vs ! 0, index + 4))"

text \<open>A vector argument is the tuple of its components \<open>(x, y[, z[, w]])\<close>.\<close>

definition encodeVector2 :: "f32 \<times> f32 \<Rightarrow> bytes" where
  "encodeVector2 value = (case value of (x, y) \<Rightarrow> pack_floats [x, y])"

definition decodeVector2 :: "bytes \<Rightarrow> nat \<Rightarrow> exc + pyval list \<times> nat" where
  "decodeVector2 data index =
     sbind (struct_unpack [Fmt_f, Fmt_f] (py_slice data index (index + 2 * 4)))
       (\<lambda>vs. Inr (vs, index + 2 * 4))"

definition encodeVector3 :: "f32 \<times> f32 \<times> f32 \<Rightarrow> bytes" where
  "encodeVector3 value = (case value of (x, y, z) \<Rightarrow> pack_floats [x, y, z])"

definition decodeVector3 :: "bytes \<Rightarrow> nat \<Rightarrow> exc + pyval list \<times> nat" where
  "decodeVector3 data index =
     sbind (struct_unpack [Fmt_f, Fmt_f, Fmt_f] (py_slice data index (index + 3 * 4)))
       (\<lambda>vs. Inr (vs, index + 3 * 4))"

text \<open>\<open>1.0\<close> as a single-precision pattern.\<close>

definition f32_one :: f32 where
  "f32_one = 0x3F800000"

text \<open>A colour is any indexable sequence: three items get alpha \<open>1.0\<close>; otherwise
  items 0--3 are read, which raises \<^verbatim>\<open>IndexError\<close> on fewer than four.\<close>

definition encodeColor :: "f32 list \<Rightarrow> exc + bytes" where
  "encodeColor value =
     (if length value = 3 then Inr (pack_floats [value ! 0, value ! 1, value ! 2, f32_one])
      else if 4 \<le> length value
      then Inr (pack_floats [value ! 0, value ! 1, value ! 2, value ! 3])
      else Inl IndexError)"

definition decodeColor :: "bytes \<Rightarrow> nat \<Rightarrow> exc + pyval list \<times> nat" where
  "decodeColor data index =
     sbind (struct_unpack [Fmt_f, Fmt_f, Fmt_f, Fmt_f] (py_slice data index (index + 4 * 4)))
       (\<lambda>vs. Inr (vs, index + 4 * 4))"

definition encodeVector4 :: "f32 \<times> f32 \<times> f32 \<times> f32 \<Rightarrow> bytes" where
  "encodeVector4 value = (case value of (x, y, z, w) \<Rightarrow> pack_floats [x, y, z, w])"

definition decodeVector4 :: "bytes \<Rightarrow> nat \<Rightarrow> exc + pyval list \<times> nat" where
  "decodeVector4 data index =
     sbind (struct_unpack [Fmt_f, Fmt_f, Fmt_f, Fmt_f] (py_slice data index (index + 4 * 4)))
       (\<lambda>vs. Inr (vs, index + 4 * 4))"

subsection \<open>Facts about struct\<close>

lemma length_pack_f [simp]: "length (pack_f x) = 4"
  by (simp add: pack_f_def)

lemma int_from_le_pack_f [simp, codec_simps]: "int_from_le (pack_f x) = uint x"
proof -
  have "uint x < 256 ^ 4" using uint_bounded [of x] by simp
  then show ?thesis
    by (simp add: pack_f_def int_from_le_to_le uint_nonnegative)
qed

lemma unpack_item_pack_f [codec_simps]: "unpack_item Fmt_f (pack_f x) = PyFloat x"
  by simp

lemma length_pack_floats [simp]: "length (pack_floats xs) = 4 * length xs"
  by (induction xs) (simp_all add: pack_floats_def)

lemma unpack_items_pack_floats [codec_simps]:
  "unpack_items (replicate (length xs) Fmt_f) (pack_floats xs) = map PyFloat xs"
  by (induction xs) (simp_all add: pack_floats_def unpack_item_pack_f)

lemma struct_unpack_pack_floats [codec_simps]:
  "struct_unpack (replicate (length xs) Fmt_f) (pack_floats xs) = Inr (map PyFloat xs)"
  by (simp add: struct_unpack_def unpack_items_pack_floats)

lemma pack_I_Inr:
  "0 \<le> v \<Longrightarrow> v < 2 ^ 32 \<Longrightarrow> pack_I v = Inr (int_to_le 4 v)"
  by (simp add: pack_I_def)

lemma struct_unpack_I [codec_simps]:
  "length bs = 4 \<Longrightarrow> struct_unpack [Fmt_I] bs = Inr [PyInt (int_from_le bs)]"
  by (simp add: struct_unpack_def)

lemma struct_unpack_error:
  "length bs \<noteq> 4 * length fs \<Longrightarrow> struct_unpack fs bs = Inl StructError"
  by (simp add: struct_unpack_def)

subsection \<open>Integers and bytes\<close>

lemma intToBytes_Inr:
  "0 \<le> v \<Longrightarrow> v < 256 ^ n \<Longrightarrow> intToBytes v n = Inr (int_to_le n v)"
  by (simp add: intToBytes_def)

lemma intToBytes_OverflowError:
  "intToBytes v n = Inl OverflowError \<longleftrightarrow> v < 0 \<or> 256 ^ n \<le> v"
  by (auto simp: intToBytes_def)

lemma bytesToInt_bounds: "0 \<le> bytesToInt bs \<and> bytesToInt bs < 256 ^ length bs"
  by (simp add: bytesToInt_def int_from_le_nonneg int_from_le_bound)

lemmas scalar_codec_defs =
  encodeFloat_def decodeFloat_def encodeInt_def decodeInt_def pack_I_def
  encodeVector2_def decodeVector2_def encodeVector3_def decodeVector3_def
  encodeVector4_def decodeVector4_def encodeColor_def decodeColor_def
  struct_unpack_def pack_floats_def

subsection \<open>Round trips of the scalar codecs\<close>

text \<open>
  Each round trip is stated at an arbitrary offset inside an arbitrary buffer:
  the decoder, given the bytes the encoder produced at offset \<open>length pre\<close>, returns
  the value and the offset just past those bytes.
\<close>

text \<open>C20: decodeBool applied at any offset to the four bytes encodeBool produced returns the boolean and the offset after them.\<close>

theorem decodeBool_encodeBool:
  "\<exists>bs. encodeBool b = Inr bs \<and> length bs = 4 \<and>
        decodeBool (pre @ bs @ post) (length pre) = (b, length pre + 4)"
  by (cases b) (simp_all add: encodeBool_def intToBytes_def decodeBool_def bytesToInt_def
      py_slice_offset int_to_le_numeral)

text \<open>\<^verbatim>\<open>decodeBool\<close> never raises, even past the end of the buffer: it is true
  exactly when the (at most four) bytes at the offset are a 1 followed by zeros.\<close>

text \<open>C21: decodeBool never raises, even at the end of the buffer; it is true exactly when the up to four bytes at the offset are 1 followed by zeros.\<close>

theorem decodeBool_true_iff:
  "fst (decodeBool data i) \<longleftrightarrow>
     (case py_slice data i (i + 4) of [] \<Rightarrow> False | b # cs \<Rightarrow> b = 1 \<and> (\<forall>c\<in>set cs. c = 0))"
  by (simp add: decodeBool_def bytesToInt_def int_from_le_eq_1 Let_def)

text \<open>C22: encodeInt raises struct.error exactly for values outside [0, 2^32); inside, it gives four bytes which decodeInt reads back at any offset.\<close>

theorem decodeInt_encodeInt:
  "(encodeInt v = Inl StructError \<longleftrightarrow> v < 0 \<or> 2 ^ 32 \<le> v) \<and>
   (0 \<le> v \<and> v < 2 ^ 32 \<longrightarrow>
      (\<exists>bs. encodeInt v = Inr bs \<and> length bs = 4 \<and>
             decodeInt (pre @ bs @ post) (length pre) = Inr (PyInt v, length pre + 4)))"
  by (auto simp: scalar_codec_defs py_slice_offset int_from_le_to_le)

text \<open>C23: decodeInt raises struct.error when fewer than four bytes remain after the offset.\<close>

theorem decodeInt_short:
  "length data < i + 4 \<Longrightarrow> decodeInt data i = Inl StructError"
  by (simp add: decodeInt_def struct_unpack_error)

text \<open>C24: decodeFloat reads back the 32-bit pattern encodeFloat wrote, at any offset, and advances by four.\<close>

theorem decodeFloat_encodeFloat:
  "decodeFloat (pre @ encodeFloat x @ post) (length pre) = Inr (PyFloat x, length pre + 4)"
  by (simp add: scalar_codec_defs py_slice_offset)

theorem decodeVector2_encodeVector2:
  "decodeVector2 (pre @ encodeVector2 (x, y) @ post) (length pre) =
     Inr ([PyFloat x, PyFloat y], length pre + 8)"
  by (simp add: scalar_codec_defs py_slice_offset)

text \<open>C25: decodeVector3 reads back the three components encodeVector3 wrote and advances by twelve.\<close>

theorem decodeVector3_encodeVector3:
  "decodeVector3 (pre @ encodeVector3 (x, y, z) @ post) (length pre) =
     Inr ([PyFloat x, PyFloat y, PyFloat z], length pre + 12)"
  by (simp add: scalar_codec_defs py_slice_offset)

theorem decodeVector4_encodeVector4:
  "decodeVector4 (pre @ encodeVector4 (x, y, z, w) @ post) (length pre) =
     Inr ([PyFloat x, PyFloat y, PyFloat z, PyFloat w], length pre + 16)"
  by (simp add: scalar_codec_defs py_slice_offset)

text \<open>A three-item colour is sent with alpha \<open>1.0\<close>; a longer one with its fourth item.\<close>

text \<open>C26: encodeColor raises IndexError exactly on sequences of fewer than three items; a colour of three items is sent with alpha 1.0 and one of four or more with its fourth item, and decodeColor reads the four floats back and advances by sixteen.\<close>

theorem decodeColor_encodeColor:
  "(encodeColor c = Inl IndexError \<longleftrightarrow> length c < 3) \<and>
   (3 \<le> length c \<longrightarrow>
      (\<exists>bs. encodeColor c = Inr bs \<and>
         decodeColor (pre @ bs @ post) (length pre) =
           Inr (map PyFloat [c ! 0, c ! 1, c ! 2, if length c = 3 then f32_one else c ! 3],
                length pre + 16)))"
  by (auto simp: scalar_codec_defs py_slice_offset)

subsection \<open>The theorems at concrete inputs\<close>

theorem decodeBool_true_iff_witness:
  "fst (decodeBool [7, 1, 0, 0, 0] 1) \<and> \<not> fst (decodeBool [1, 0, 2, 0] 0) \<and> fst (decodeBool [9, 1] 1)"
  using decodeBool_true_iff [of "[7, 1, 0, 0, 0]" 1] decodeBool_true_iff [of "[1, 0, 2, 0]" 0]
    decodeBool_true_iff [of "[9, 1]" 1]
  by (simp add: py_slice_def)

theorem decodeInt_encodeInt_witness:
  "\<exists>bs. encodeInt 258 = Inr bs \<and> length bs = 4 \<and>
        decodeInt ([9] @ bs @ [9]) (length [9 :: byte]) = Inr (PyInt 258, length [9 :: byte] + 4)"
  using decodeInt_encodeInt [of 258 "[9]" "[9]"] by simp

theorem decodeInt_short_witness:
  "decodeInt [1, 2, 3, 4, 5] 2 = Inl StructError"
  by (rule decodeInt_short) simp

theorem decodeColor_encodeColor_witness:
  "\<exists>bs. encodeColor [1, 2, 3] = Inr bs \<and>
     decodeColor ([] @ bs @ []) (length ([] :: bytes)) =
       Inr (map PyFloat [[1, 2, 3] ! 0, [1, 2, 3] ! 1, [1, 2, 3] ! 2,
                         if length [1, 2, 3 :: f32] = 3 then f32_one else [1, 2, 3 :: f32] ! 3],
            length ([] :: bytes) + 16)"
  using decodeColor_encodeColor [of "[1, 2, 3]" "[]" "[]"] by simp

end
