(* ===== verification/Socket.thy ===== *)
theory Socket
  imports Prelude "HOL-Library.Stream"
begin

text \<open>
  The environment the transport functions run against: one TCP socket as the
  Python \<^verbatim>\<open>socket\<close> and \<^verbatim>\<open>select\<close> modules present it. This is not code of the
  repository; it is modelled from the documented behaviour of the calls the code
  makes (\<^verbatim>\<open>select.select\<close>, \<^verbatim>\<open>socket.recv\<close>, \<^verbatim>\<open>socket.send\<close>).

  Receive side: \<open>rx\<close> is every byte the peer will deliver from now on, in order;
  \<open>peer\<close> says what follows them (nothing, an orderly close, or a reset). How the
  bytes are cut into the results of successive \<^verbatim>\<open>recv(n)\<close> calls is not
  determined by the data: \<open>grants\<close> lists the sizes the kernel hands out
  (a grant of \<open>g\<close> returns \<open>min n (max 1 g)\<close> of the available bytes; once the
  list is used up each call returns all it is asked for). A socket is readable
  when it has data or the peer has closed or reset it. A \<^verbatim>\<open>recv\<close> on an empty
  socket whose peer is still open blocks for ever, since no more data will come:
  it is \<open>None\<close>. At end of stream \<^verbatim>\<open>recv\<close> returns \<^verbatim>\<open>b''\<close>; after a reset
  it raises. \<^verbatim>\<open>recv(n)\<close> first allocates an \<open>n\<close>-byte buffer: CPython raises
  \<^verbatim>\<open>OverflowError\<close> for \<open>n \<ge> 2^63\<close> and \<^verbatim>\<open>MemoryError\<close> when the
  allocation fails. Neither is represented here, so a statement about a
  \<^verbatim>\<open>recv\<close> call that could fail that way (the payload loop after a header
  whose declared length is not backed by data) is made only for sizes below
  \<open>2^20\<close>, whose buffer is always allocated.

  Send side: \<open>tx\<close> is every byte the kernel has accepted, in order, and
  \<open>wsched\<close> the infinite stream of outcomes of successive \<^verbatim>\<open>select\<close>/\<^verbatim>\<open>send\<close>
  rounds: not writable within the timeout, writable with room for \<open>max 1 k\<close>
  bytes, or a send that raises (a broken pipe).
\<close>

datatype peer_state = Open | Closed | Reset

datatype wevent = NotWritable | Writable nat | SendFails

record sock =
  rx :: bytes
  peer :: peer_state
  grants :: "nat list"
  tx :: bytes
  wsched :: "wevent stream"

definition sock_readable :: "sock \<Rightarrow> bool" where
  "sock_readable s \<longleftrightarrow> rx s \<noteq> [] \<or> peer s \<noteq> Open"

definition recv_size :: "nat \<Rightarrow> nat list \<Rightarrow> nat" where
  "recv_size n gs = (case gs of [] \<Rightarrow> n | g # _ \<Rightarrow> min n (max 1 g))"

definition sock_recv :: "nat \<Rightarrow> sock \<Rightarrow> ((exc + bytes) \<times> sock) option" where
  "sock_recv n s =
     (if rx s \<noteq> [] then
        (let k = recv_size n (grants s)
         in Some (Inr (take k (rx s)), s\<lparr>rx := drop k (rx s), grants := tl (grants s)\<rparr>))
      else case peer s of
        Open \<Rightarrow> None
      | Closed \<Rightarrow> Some (Inr [], s)
      | Reset \<Rightarrow> Some (Inl OSError, s))"

text \<open>One round of the send loop's environment: the outcome of \<^verbatim>\<open>select\<close>
  and, if writable, of \<^verbatim>\<open>send(rest)\<close>: \<open>None\<close> when not writable, else the
  number of bytes sent or the exception.\<close>

definition sock_send_round :: "bytes \<Rightarrow> sock \<Rightarrow> (exc + nat) option \<times> sock" where
  "sock_send_round rest s =
     (let s' = s\<lparr>wsched := stl (wsched s)\<rparr>
      in case shd (wsched s) of
           NotWritable \<Rightarrow> (None, s')
         | Writable k \<Rightarrow>
             (let sent = min (length rest) (max 1 k)
              in (Some (Inr sent), s'\<lparr>tx := tx s @ take sent rest\<rparr>))
         | SendFails \<Rightarrow> (Some (Inl OSError), s'))"

subsection \<open>Facts about the socket\<close>

lemma recv_size_pos: "0 < n \<Longrightarrow> 0 < recv_size n gs"
  by (auto simp: recv_size_def split: list.splits)

lemma recv_size_le: "recv_size n gs \<le> n"
  by (simp add: recv_size_def split: list.splits)

lemma sock_recv_data:
  "rx s \<noteq> [] \<Longrightarrow> sock_recv n s =
     Some (Inr (take (recv_size n (grants s)) (rx s)),
           s\<lparr>rx := drop (recv_size n (grants s)) (rx s), grants := tl (grants s)\<rparr>)"
  by (simp add: sock_recv_def Let_def)

lemma sock_recv_eof:
  "rx s = [] \<Longrightarrow> peer s = Closed \<Longrightarrow> sock_recv n s = Some (Inr [], s)"
  by (simp add: sock_recv_def)

lemma sock_recv_blocks:
  "rx s = [] \<Longrightarrow> peer s = Open \<Longrightarrow> sock_recv n s = None"
  by (simp add: sock_recv_def)

end
