(* ===== verification/Transport.thy ===== *)
theory Transport
  imports CommandModel ScalarCodec Socket
begin

text \<open>
  Framing and socket I/O of \<^verbatim>\<open>src/broadcaster/common.py\<close>: \<^verbatim>\<open>readMessage\<close>
  (lines 172--198) and \<^verbatim>\<open>writeMessage\<close> (lines 200--215). A frame is the payload
  length in 8 bytes, the command id in 4 and the message type code in 2, all
  little-endian, then the payload. The source writes the header inline; here its
  construction is \<open>frame_buffer\<close> and its decoding \<open>parse_header\<close>. Both loops of
  the source are \<^theory_text>\<open>partial_function (option)\<close>: \<open>None\<close> is a call that never
  returns. A call either returns a value or raises, as an element of
  \<open>exc + _\<close>; \<^verbatim>\<open>readMessage\<close> turns every exception into
  \<^verbatim>\<open>ClientDisconnectedException\<close>, as its \<^verbatim>\<open>except\<close> clauses do. The counter
  \<^verbatim>\<open>Command._id\<close> is threaded through \<^verbatim>\<open>readMessage\<close>, since the
  \<^verbatim>\<open>Command\<close> it builds may draw from it.
\<close>

subsection \<open>Frames\<close>

text \<open>Lines 203--207: the three \<^verbatim>\<open>intToBytes\<close> calls in order, then the concatenation.\<close>

definition frame_buffer :: "Command \<Rightarrow> exc + bytes" where
  "frame_buffer command =
     sbind (intToBytes (int (length (cmd_data command))) 8) (\<lambda>size_bytes.
     sbind (intToBytes (cmd_id command) 4) (\<lambda>commandId.
     sbind (intToBytes (MessageType_value (cmd_type command)) 2) (\<lambda>mtype.
       Inr (size_bytes @ commandId @ mtype @ cmd_data command))))"

text \<open>Lines 181--183, on the 14 bytes of a header.\<close>

definition parse_header :: "bytes \<Rightarrow> int \<times> int \<times> int" where
  "parse_header msg =
     (bytesToInt (py_slice msg 0 8), bytesToInt (py_slice msg 8 12),
      bytesToInt (drop 12 msg))"

subsection \<open>Receiving\<close>

text \<open>Lines 186--189: accumulate \<open>currentSize\<close> more bytes.\<close>

partial_function (option) recv_loop :: "nat \<Rightarrow> sock \<Rightarrow> bytes \<Rightarrow> ((exc + bytes) \<times> sock) option"
where
  "recv_loop currentSize s msg =
     (if currentSize \<noteq> 0 then
        (case sock_recv currentSize s of
           None \<Rightarrow> None
         | Some (Inl e, s') \<Rightarrow> Some (Inl e, s')
         | Some (Inr tmp, s') \<Rightarrow> recv_loop (currentSize - length tmp) s' (msg @ tmp))
      else Some (Inr msg, s))"

type_synonym read_result = "(exc + Command option) \<times> sock option \<times> int"

text \<open>The body of the \<^verbatim>\<open>try\<close> after the header has arrived (lines 181--190): the
  payload loop, then \<^verbatim>\<open>intToMessageType\<close>, then the constructor.\<close>

definition read_body :: "bytes \<Rightarrow> sock \<Rightarrow> int \<Rightarrow> read_result option" where
  "read_body msg s next_id =
     (case parse_header msg of (frameSize, commandId, messageType) \<Rightarrow>
        (case recv_loop (nat frameSize) s [] of
           None \<Rightarrow> None
         | Some (Inl e, s') \<Rightarrow> Some (Inl ClientDisconnected, Some s', next_id)
         | Some (Inr payload, s') \<Rightarrow>
             (case intToMessageType messageType of
                Inl e \<Rightarrow> Some (Inl ClientDisconnected, Some s', next_id)
              | Inr t \<Rightarrow>
                  (case Command_init t (Some payload) commandId next_id of
                     (c, next_id') \<Rightarrow> Some (Inr (Some c), Some s', next_id')))))"

definition readMessage :: "sock option \<Rightarrow> int \<Rightarrow> read_result option" where
  "readMessage socket next_id =
     (case socket of
        None \<Rightarrow> Some (Inr None, None, next_id)
      | Some s \<Rightarrow>
          if \<not> sock_readable s then Some (Inr None, Some s, next_id)
          else (case sock_recv 14 s of
                  None \<Rightarrow> None
                | Some (Inl e, s1) \<Rightarrow> Some (Inl ClientDisconnected, Some s1, next_id)
                | Some (Inr msg, s1) \<Rightarrow>
                    if length msg < 14 then Some (Inl ClientDisconnected, Some s1, next_id)
                    else read_body msg s1 next_id))"

subsection \<open>Sending\<close>

text \<open>Lines 210--215.\<close>

partial_function (option) send_loop ::
  "bytes \<Rightarrow> nat \<Rightarrow> nat \<Rightarrow> sock \<Rightarrow> ((exc + unit) \<times> sock) option"
where
  "send_loop buffer remainingSize currentIndex s =
     (if 0 < remainingSize then
        (case sock_send_round (drop currentIndex buffer) s of
           (None, s') \<Rightarrow> send_loop buffer remainingSize currentIndex s'
         | (Some (Inl e), s') \<Rightarrow> Some (Inl e, s')
         | (Some (Inr sent), s') \<Rightarrow>
             send_loop buffer (remainingSize - sent) (currentIndex + sent) s')
      else Some (Inr (), s))"

definition writeMessage :: "sock option \<Rightarrow> Command \<Rightarrow> ((exc + unit) \<times> sock option) option" where
  "writeMessage socket command =
     (case socket of
        None \<Rightarrow> Some (Inr (), None)
      | Some s \<Rightarrow>
          (case frame_buffer command of
             Inl e \<Rightarrow> Some (Inl e, Some s)
           | Inr buffer \<Rightarrow>
               map_option (\<lambda>(r, s'). (r, Some s')) (send_loop buffer (length buffer) 0 s)))"

subsection \<open>The frame format of the specification\<close>

text \<open>
  What the specification (section 6) says a frame is, to compare the code
  against: a command can be framed when its id fits 4 unsigned bytes and its
  payload length 8; the header is the three little-endian fields.
\<close>

definition frame_ok :: "Command \<Rightarrow> bool" where
  "frame_ok c \<longleftrightarrow> 0 \<le> cmd_id c \<and> cmd_id c < 2 ^ 32 \<and> length (cmd_data c) < 2 ^ 64"

definition raw_header :: "int \<Rightarrow> int \<Rightarrow> int \<Rightarrow> bytes" where
  "raw_header len i code = int_to_le 8 len @ int_to_le 4 i @ int_to_le 2 code"

definition frame_header :: "Command \<Rightarrow> bytes" where
  "frame_header c =
     raw_header (int (length (cmd_data c))) (cmd_id c) (MessageType_value (cmd_type c))"

definition frame_bytes :: "Command \<Rightarrow> bytes" where
  "frame_bytes c = frame_header c @ cmd_data c"

text \<open>The number of rounds of a send schedule in which the socket is writable.\<close>

fun count_writable :: "wevent list \<Rightarrow> nat" where
  "count_writable [] = 0"
| "count_writable (Writable k # es) = Suc (count_writable es)"
| "count_writable (_ # es) = count_writable es"

text \<open>A concrete command and socket on which the theorems below are instantiated.\<close>

definition demo_command :: Command where
  "demo_command = \<lparr>cmd_type = TRANSFORM, cmd_data = [1, 2], cmd_id = 7\<rparr>"

definition demo_sock :: "bytes \<Rightarrow> peer_state \<Rightarrow> nat list \<Rightarrow> wevent stream \<Rightarrow> sock" where
  "demo_sock bs p gs ws = \<lparr>rx = bs, peer = p, grants = gs, tx = [], wsched = ws\<rparr>"

text \<open>
  A reader of a connection, as the room server uses \<open>readMessage\<close>: up to \<open>k\<close>
  calls in a row on the same socket, threading the counter, stopping at the first
  call that finds no message or raises. The server is not in the sources; this
  is the calling discipline the specification (section 5) describes.
\<close>

fun readMessages :: "nat \<Rightarrow> sock option \<Rightarrow> int \<Rightarrow> ((exc + Command list) \<times> sock option \<times> int) option" where
  "readMessages 0 sk n = Some (Inr [], sk, n)"
| "readMessages (Suc k) sk n =
     (case readMessage sk n of
        None \<Rightarrow> None
      | Some (Inl e, sk', n') \<Rightarrow> Some (Inl e, sk', n')
      | Some (Inr None, sk', n') \<Rightarrow> Some (Inr [], sk', n')
      | Some (Inr (Some c), sk', n') \<Rightarrow>
          (case readMessages k sk' n' of
             None \<Rightarrow> None
           | Some (Inl e, sk'', n'') \<Rightarrow> Some (Inl e, sk'', n'')
           | Some (Inr cs, sk'', n'') \<Rightarrow> Some (Inr (c # cs), sk'', n'')))"

text \<open>
  A writer, as the room server uses \<open>writeMessage\<close> to forward several commands
  to one client: one call per command, in order, stopping at the first call that
  raises. Like \<open>readMessages\<close>, it is the calling discipline of the
  specification, not code of the repository.
\<close>

fun writeMessages :: "sock option \<Rightarrow> Command list \<Rightarrow> ((exc + unit) \<times> sock option) option" where
  "writeMessages sk [] = Some (Inr (), sk)"
| "writeMessages sk (c # cs) =
     (case writeMessage sk c of
        None \<Rightarrow> None
      | Some (Inl e, sk') \<Rightarrow> Some (Inl e, sk')
      | Some (Inr _, sk') \<Rightarrow> writeMessages sk' cs)"

subsection \<open>The loops\<close>

lemma recv_loop_eof_None:
  assumes "rx s = []" and "peer s = Closed" and "0 < n"
  shows "recv_loop n s acc = None"
proof (rule ccontr)
  assume "recv_loop n s acc \<noteq> None"
  then obtain y where ret: "recv_loop n s acc = Some y" by auto
  have "rx s = [] \<longrightarrow> peer s = Closed \<longrightarrow> n = 0"
  proof (rule recv_loop.raw_induct [where P = "\<lambda>n s acc y. rx s = [] \<longrightarrow> peer s = Closed \<longrightarrow> n = 0", OF _ ret])
    fix f :: "nat \<Rightarrow> sock \<Rightarrow> bytes \<Rightarrow> ((exc + bytes) \<times> sock) option" and n s acc y
    assume IH: "\<And>n s acc y. f n s acc = Some y \<Longrightarrow> rx s = [] \<longrightarrow> peer s = Closed \<longrightarrow> n = 0"
      and eq: "(if n \<noteq> 0 then case sock_recv n s of None \<Rightarrow> None
           | Some (Inl e, s') \<Rightarrow> Some (Inl e, s')
           | Some (Inr tmp, s') \<Rightarrow> f (n - length tmp) s' (acc @ tmp)
          else Some (Inr acc, s)) = Some y"
    show "rx s = [] \<longrightarrow> peer s = Closed \<longrightarrow> n = 0"
    proof (intro impI)
      assume "rx s = []" and "peer s = Closed"
      then show "n = 0" using eq IH [of n s "acc @ []" y] by (auto simp: sock_recv_eof split: if_splits)
    qed
  qed
  with assms show False by simp
qed

lemma recv_loop_enough:
  "n \<le> length (rx s) \<Longrightarrow>
   \<exists>gs. recv_loop n s acc = Some (Inr (acc @ take n (rx s)), s\<lparr>rx := drop n (rx s), grants := gs\<rparr>)"
proof (induction n arbitrary: s acc rule: less_induct)
  case (less n)
  show ?case
  proof (cases "n = 0")
    case True
    then show ?thesis by (auto simp: recv_loop.simps intro: exI [of _ "grants s"])
  next
    case False
    define k where "k = recv_size n (grants s)"
    have k: "0 < k" "k \<le> n" using False by (simp_all add: k_def recv_size_pos recv_size_le)
    have ne: "rx s \<noteq> []" using False less.prems by auto
    define s1 where "s1 = s\<lparr>rx := drop k (rx s), grants := tl (grants s)\<rparr>"
    have "n - k < n" "n - k \<le> length (rx s1)" using k less.prems by (simp_all add: s1_def)
    from less.IH [OF this] obtain gs where IH: "recv_loop (n - k) s1 (acc @ take k (rx s)) =
        Some (Inr ((acc @ take k (rx s)) @ take (n - k) (rx s1)), s1\<lparr>rx := drop (n - k) (rx s1), grants := gs\<rparr>)"
      by blast
    have len: "length (take k (rx s)) = k" using k less.prems by simp
    have "take k (rx s) @ take (n - k) (drop k (rx s)) = take n (rx s)"
      using k by (metis le_add_diff_inverse take_add)
    moreover have "drop (n - k) (drop k (rx s)) = drop n (rx s)" using k by simp
    ultimately have "recv_loop n s acc = Some (Inr (acc @ take n (rx s)), s\<lparr>rx := drop n (rx s), grants := gs\<rparr>)"
      using False IH ne len by (simp add: recv_loop.simps [of n] sock_recv_data s1_def k_def [symmetric])
    then show ?thesis by blast
  qed
qed

text \<open>With no chunk sizes pending, one \<^verbatim>\<open>recv\<close> delivers the whole payload.\<close>

lemma recv_loop_plain:
  assumes "grants s = []" and "n \<le> length (rx s)"
  shows "recv_loop n s acc = Some (Inr (acc @ take n (rx s)), s\<lparr>rx := drop n (rx s)\<rparr>)"
proof (cases "n = 0")
  case True
  then show ?thesis by (simp add: recv_loop.simps)
next
  case False
  then have "rx s \<noteq> []" using assms(2) by auto
  then show ?thesis
    using False assms by (simp add: recv_loop.simps [of n] recv_loop.simps [of 0] sock_recv_data recv_size_def)
qed

lemma send_loop_stalls:
  assumes "wsched s = sconst NotWritable" and "0 < remainingSize"
  shows "send_loop buffer remainingSize currentIndex s = None"
proof (rule ccontr)
  assume "send_loop buffer remainingSize currentIndex s \<noteq> None"
  then obtain y where ret: "send_loop buffer remainingSize currentIndex s = Some y" by auto
  have "wsched s = sconst NotWritable \<longrightarrow> remainingSize = 0"
  proof (rule send_loop.raw_induct [where P = "\<lambda>b r i s y. wsched s = sconst NotWritable \<longrightarrow> r = 0", OF _ ret])
    fix f :: "bytes \<Rightarrow> nat \<Rightarrow> nat \<Rightarrow> sock \<Rightarrow> ((exc + unit) \<times> sock) option" and b r i s y
    assume IH: "\<And>b r i s y. f b r i s = Some y \<Longrightarrow> wsched s = sconst NotWritable \<longrightarrow> r = 0"
      and eq: "(if 0 < r then case sock_send_round (drop i b) s of
                 (None, s') \<Rightarrow> f b r i s'
                 | (Some (Inl e), s') \<Rightarrow> Some (Inl e, s')
                 | (Some (Inr sent), s') \<Rightarrow> f b (r - sent) (i + sent) s'
            else Some (Inr (), s)) = Some y"
    show "wsched s = sconst NotWritable \<longrightarrow> r = 0"
    proof
      assume w: "wsched s = sconst NotWritable"
      show "r = 0"
      proof (rule ccontr)
        assume "r \<noteq> 0"
        with eq w have "f b r i (s\<lparr>wsched := sconst NotWritable\<rparr>) = Some y"
          by (simp add: sock_send_round_def)
        from IH [OF this] \<open>r \<noteq> 0\<close> show False by simp
      qed
    qed
  qed
  with assms show False by simp
qed


lemma length_frame_header [simp]: "length (frame_header c) = 14"
  by (simp add: frame_header_def raw_header_def)

lemma frame_bytes_nonempty: "0 < length (frame_bytes c)"
  by (simp add: frame_bytes_def)

lemma frame_field_bounds:
  "0 \<le> MessageType_value t" "MessageType_value t < 65536"
  using MessageType_value_lt_2p16 [of t] MessageType_value_pos [of t] by simp_all

lemma frame_buffer_ok:
  "frame_ok c \<Longrightarrow> frame_buffer c = Inr (frame_bytes c)"
  by (simp add: frame_buffer_def frame_bytes_def frame_header_def raw_header_def frame_ok_def
      intToBytes_def frame_field_bounds)

lemma frame_buffer_error:
  "frame_buffer c = Inl OverflowError \<longleftrightarrow> \<not> frame_ok c"
  by (auto simp: frame_buffer_def frame_ok_def intToBytes_def sbind_def frame_field_bounds)

lemma parse_raw_header:
  assumes "0 \<le> a" "a < 2 ^ 64" "0 \<le> i" "i < 2 ^ 32" "0 \<le> t" "t < 2 ^ 16"
  shows "parse_header (raw_header a i t) = (a, i, t)"
  using assms by (simp add: parse_header_def raw_header_def bytesToInt_def py_slice_def
      int_from_le_to_le)

lemma parse_frame_header:
  "frame_ok c \<Longrightarrow> parse_header (frame_header c) =
     (int (length (cmd_data c)), cmd_id c, MessageType_value (cmd_type c))"
  using MessageType_value_lt_2p16 [of "cmd_type c"] MessageType_value_pos [of "cmd_type c"]
  by (simp add: frame_header_def frame_ok_def parse_raw_header)

lemma send_loop_completes:
  "\<forall>e\<in>set xs. e \<noteq> SendFails \<Longrightarrow> length buffer - i \<le> count_writable xs \<Longrightarrow>
   wsched s = xs @- rest \<Longrightarrow>
   \<exists>w. send_loop buffer (length buffer - i) i s =
        Some (Inr (), s\<lparr>tx := tx s @ drop i buffer, wsched := w\<rparr>)"
proof (induction xs arbitrary: i s)
  case Nil
  then show ?case by (auto simp: send_loop.simps intro: exI [of _ "wsched s"])
next
  case (Cons e xs)
  show ?case
  proof (cases "length buffer - i = 0")
    case True
    then show ?thesis by (auto simp: send_loop.simps intro: exI [of _ "wsched s"])
  next
    case False
    show ?thesis
    proof (cases e)
      case NotWritable
      with Cons.prems have "\<exists>w. send_loop buffer (length buffer - i) i (s\<lparr>wsched := xs @- rest\<rparr>) =
          Some (Inr (), s\<lparr>wsched := xs @- rest\<rparr>\<lparr>tx := tx s @ drop i buffer, wsched := w\<rparr>)"
        using Cons.IH [of i "s\<lparr>wsched := xs @- rest\<rparr>"] by simp
      with False NotWritable Cons.prems show ?thesis
        by (simp add: send_loop.simps [of buffer "length buffer - i"] sock_send_round_def)
    next
      case (Writable k)
      define sent where "sent = min (length (drop i buffer)) (max 1 k)"
      have sent: "0 < sent" "i + sent \<le> length buffer" using False by (auto simp: sent_def)
      define s' where "s' = s\<lparr>wsched := xs @- rest, tx := tx s @ take sent (drop i buffer)\<rparr>"
      have "length buffer - (i + sent) \<le> count_writable xs" using Cons.prems Writable sent by simp
      with Cons.prems have "\<exists>w. send_loop buffer (length buffer - (i + sent)) (i + sent) s' =
          Some (Inr (), s'\<lparr>tx := tx s' @ drop (i + sent) buffer, wsched := w\<rparr>)"
        using Cons.IH [of "i + sent" s'] by (simp add: s'_def)
      moreover have "take sent (drop i buffer) @ drop (i + sent) buffer = drop i buffer"
        by (metis add.commute append_take_drop_id drop_drop)
      moreover have "sock_send_round (drop i buffer) s = (Some (Inr sent), s')"
        using Writable Cons.prems by (simp add: sock_send_round_def s'_def sent_def Let_def)
      ultimately show ?thesis using False
        by (simp add: send_loop.simps [of buffer "length buffer - i"] s'_def)
    next
      case SendFails
      with Cons.prems show ?thesis by simp
    qed
  qed
qed


text \<open>On a socket that is always writable the send loop returns with exactly the rest of
  the buffer sent and the schedule unchanged.\<close>

lemma send_loop_writable:
  assumes "wsched s = sconst (Writable k)"
  shows "send_loop buffer (length buffer - i) i s = Some (Inr (), s\<lparr>tx := tx s @ drop i buffer\<rparr>)"
  using assms
proof (induction "length buffer - i" arbitrary: i s rule: less_induct)
  case less
  show ?case
  proof (cases "length buffer - i = 0")
    case True
    then show ?thesis by (simp add: send_loop.simps)
  next
    case False
    define sent where "sent = min (length (drop i buffer)) (max 1 k)"
    have sent: "0 < sent" "i + sent \<le> length buffer" using False by (auto simp: sent_def)
    define s' where "s' = s\<lparr>wsched := sconst (Writable k), tx := tx s @ take sent (drop i buffer)\<rparr>"
    have "length buffer - (i + sent) < length buffer - i" using sent by simp
    then have "send_loop buffer (length buffer - (i + sent)) (i + sent) s' =
        Some (Inr (), s'\<lparr>tx := tx s' @ drop (i + sent) buffer\<rparr>)"
      using less.hyps [of "i + sent" s'] by (simp add: s'_def)
    moreover have "take sent (drop i buffer) @ drop (i + sent) buffer = drop i buffer"
      by (metis add.commute append_take_drop_id drop_drop)
    moreover have "sock_send_round (drop i buffer) s = (Some (Inr sent), s')"
      using less.prems by (simp add: sock_send_round_def s'_def sent_def Let_def)
    moreover have "s\<lparr>wsched := sconst (Writable k), tx := tx s @ drop i buffer\<rparr> = s\<lparr>tx := tx s @ drop i buffer\<rparr>"
      by (simp add: less.prems [symmetric])
    ultimately show ?thesis using False
      by (simp add: send_loop.simps [of buffer "length buffer - i"] s'_def)
  qed
qed

lemma writeMessage_writable:
  "frame_ok c \<Longrightarrow> wsched s = sconst (Writable k) \<Longrightarrow>
   writeMessage (Some s) c = Some (Inr (), Some (s\<lparr>tx := tx s @ frame_bytes c\<rparr>))"
  using send_loop_writable [of s k "frame_bytes c" 0] by (simp add: writeMessage_def frame_buffer_ok)

lemma frame_header_ne [simp]: "frame_header c \<noteq> []"
  using length_frame_header [of c] by (metis list.size(3) zero_neq_numeral)

lemma Command_eq_fields:
  "\<lparr>cmd_type = cmd_type c, cmd_data = cmd_data c, cmd_id = cmd_id c\<rparr> = (c :: Command)"
  by (cases c) simp

lemma Command_eq_fields_id:
  "\<lparr>cmd_type = cmd_type c, cmd_data = cmd_data c, cmd_id = n\<rparr> = (c :: Command)\<lparr>cmd_id := n\<rparr>"
  by (cases c) simp

lemma recv_loop_short_None:
  "length (rx s) < n \<Longrightarrow> peer s = Closed \<Longrightarrow> recv_loop n s acc = None"
proof (induction "length (rx s)" arbitrary: n s acc rule: less_induct)
  case less
  show ?case
  proof (cases "rx s = []")
    case True
    with less.prems show ?thesis by (simp add: recv_loop_eof_None)
  next
    case False
    define k where "k = recv_size n (grants s)"
    have k: "0 < k" using less.prems by (simp add: k_def recv_size_pos)
    define s' where "s' = s\<lparr>rx := drop k (rx s), grants := tl (grants s)\<rparr>"
    have "length (rx s') < length (rx s)" using k False by (simp add: s'_def)
    moreover have "length (rx s') < n - length (take k (rx s))"
      using less.prems k by (simp add: s'_def)
    moreover have "peer s' = Closed" using less.prems by (simp add: s'_def)
    ultimately have "recv_loop (n - length (take k (rx s))) s' (acc @ take k (rx s)) = None"
      by (rule less.hyps)
    with False less.prems show ?thesis
      by (simp add: recv_loop.simps [of n] sock_recv_data s'_def k_def [symmetric])
  qed
qed

lemma read_body_frame:
  assumes ok: "frame_ok c" and s1: "rx s1 = cmd_data c @ rest"
  shows "\<exists>gs. read_body (frame_header c) s1 n =
           Some (Inr (Some (fst (Command_init (cmd_type c) (Some (cmd_data c)) (cmd_id c) n))),
                 Some (s1\<lparr>rx := rest, grants := gs\<rparr>),
                 snd (Command_init (cmd_type c) (Some (cmd_data c)) (cmd_id c) n))"
proof -
  obtain gs where loop: "recv_loop (length (cmd_data c)) s1 [] =
      Some (Inr (cmd_data c), s1\<lparr>rx := rest, grants := gs\<rparr>)"
    using recv_loop_enough [of "length (cmd_data c)" s1 "[]"] s1 by auto
  show ?thesis
    using loop by (auto simp: read_body_def parse_frame_header [OF ok] intToMessageType_value
        split: prod.splits)
qed

lemma readMessage_header:
  assumes "rx s = hdr @ after" and "length hdr = 14" and "grants s = [] \<or> 14 \<le> hd (grants s)"
  shows "readMessage (Some s) n =
           read_body hdr (s\<lparr>rx := after, grants := tl (grants s)\<rparr>) n"
proof -
  have size: "recv_size 14 (grants s) = 14"
    using assms(3) by (auto simp: recv_size_def split: list.splits)
  have ne: "rx s \<noteq> []" using assms(1,2) by auto
  then have "sock_recv 14 s = Some (Inr hdr, s\<lparr>rx := after, grants := tl (grants s)\<rparr>)"
    using assms(1,2) by (simp add: sock_recv_data size)
  with ne assms(2) show ?thesis by (simp add: readMessage_def sock_readable_def)
qed

lemma readMessage_frame:
  assumes ok: "frame_ok c" and rx: "rx s = frame_bytes c @ rest"
    and g: "grants s = [] \<or> 14 \<le> hd (grants s)"
  shows "\<exists>gs. readMessage (Some s) n =
           Some (Inr (Some (fst (Command_init (cmd_type c) (Some (cmd_data c)) (cmd_id c) n))),
                 Some (s\<lparr>rx := rest, grants := gs\<rparr>),
                 snd (Command_init (cmd_type c) (Some (cmd_data c)) (cmd_id c) n))"
proof -
  have "readMessage (Some s) n =
      read_body (frame_header c) (s\<lparr>rx := cmd_data c @ rest, grants := tl (grants s)\<rparr>) n"
    using rx g by (simp add: readMessage_header [of s _ _] frame_bytes_def)
  with read_body_frame [OF ok, of "s\<lparr>rx := cmd_data c @ rest, grants := tl (grants s)\<rparr>" rest n]
  show ?thesis by auto
qed

lemma readMessage_frame_plain:
  assumes ok: "frame_ok c" and rx: "rx s = frame_bytes c @ rest" and g: "grants s = []"
  shows "readMessage (Some s) n =
           Some (Inr (Some (fst (Command_init (cmd_type c) (Some (cmd_data c)) (cmd_id c) n))),
                 Some (s\<lparr>rx := rest\<rparr>),
                 snd (Command_init (cmd_type c) (Some (cmd_data c)) (cmd_id c) n))"
proof -
  have "readMessage (Some s) n = read_body (frame_header c) (s\<lparr>rx := cmd_data c @ rest, grants := []\<rparr>) n"
    using rx g by (simp add: readMessage_header [of s _ _] frame_bytes_def)
  moreover have "recv_loop (length (cmd_data c)) (s\<lparr>rx := cmd_data c @ rest, grants := []\<rparr>) [] =
      Some (Inr (cmd_data c), s\<lparr>rx := rest\<rparr>)"
    using recv_loop_plain [of "s\<lparr>rx := cmd_data c @ rest, grants := []\<rparr>" "length (cmd_data c)" "[]"] g
    by simp
  ultimately show ?thesis
    by (simp add: read_body_def parse_frame_header [OF ok] intToMessageType_value split: prod.splits)
qed

text \<open>C2: readMessage on a socket whose pending bytes start with the frame of a command with a non-zero id in range (header read in one piece) returns that command, consumes exactly the frame and leaves Command._id unchanged, for any later chunking of the payload.\<close>

theorem readMessage_roundtrip:
  assumes "frame_ok c" and "cmd_id c \<noteq> 0" and "rx s = frame_bytes c @ rest"
    and "grants s = [] \<or> 14 \<le> hd (grants s)"
  shows "\<exists>gs. readMessage (Some s) n = Some (Inr (Some c), Some (s\<lparr>rx := rest, grants := gs\<rparr>), n)"
  using readMessage_frame [OF assms(1,3,4), of n] assms(2)
  by (simp add: Command_init_given Command_eq_fields)

text \<open>C14: Frames arriving back to back are read in order, each call consuming exactly one frame: k calls of readMessage on the frames of k commands return the commands in order, with the ids and counter the constructor gives when the commands are constructed one after another.\<close>

theorem readMessages_in_order:
  assumes "list_all frame_ok cs" and "rx s = concat (map frame_bytes cs) @ rest" and "grants s = []"
  shows "readMessages (length cs) (Some s) n =
           Some (Inr (fst (Command_inits (map (\<lambda>c. (cmd_type c, Some (cmd_data c), cmd_id c)) cs) n)),
                 Some (s\<lparr>rx := rest\<rparr>),
                 snd (Command_inits (map (\<lambda>c. (cmd_type c, Some (cmd_data c), cmd_id c)) cs) n))"
  using assms
proof (induction cs arbitrary: s n)
  case Nil
  then show ?case by simp
next
  case (Cons c cs)
  have r: "readMessage (Some s) n =
      Some (Inr (Some (fst (Command_init (cmd_type c) (Some (cmd_data c)) (cmd_id c) n))),
            Some (s\<lparr>rx := concat (map frame_bytes cs) @ rest\<rparr>),
            snd (Command_init (cmd_type c) (Some (cmd_data c)) (cmd_id c) n))"
    using Cons.prems by (intro readMessage_frame_plain) simp_all
  have "readMessages (length cs) (Some (s\<lparr>rx := concat (map frame_bytes cs) @ rest\<rparr>))
          (snd (Command_init (cmd_type c) (Some (cmd_data c)) (cmd_id c) n)) =
        Some (Inr (fst (Command_inits (map (\<lambda>c. (cmd_type c, Some (cmd_data c), cmd_id c)) cs)
                     (snd (Command_init (cmd_type c) (Some (cmd_data c)) (cmd_id c) n)))),
              Some (s\<lparr>rx := rest\<rparr>),
              snd (Command_inits (map (\<lambda>c. (cmd_type c, Some (cmd_data c), cmd_id c)) cs)
                     (snd (Command_init (cmd_type c) (Some (cmd_data c)) (cmd_id c) n))))"
    using Cons.IH [of "s\<lparr>rx := concat (map frame_bytes cs) @ rest\<rparr>"] Cons.prems by simp
  then show ?case using r by (simp add: split_def Let_def)
qed

text \<open>C15: On a socket that is always writable, writing a list of commands one after another sends their frames in order, each exactly once; if one command cannot be framed, the commands before it are sent and writing stops there with OverflowError.\<close>

theorem writeMessages_in_order:
  assumes "wsched s = sconst (Writable k)"
  shows "writeMessages (Some s) cs =
     (if list_all frame_ok cs then Some (Inr (), Some (s\<lparr>tx := tx s @ concat (map frame_bytes cs)\<rparr>))
      else Some (Inl OverflowError,
                 Some (s\<lparr>tx := tx s @ concat (map frame_bytes (takeWhile frame_ok cs))\<rparr>)))"
  using assms
proof (induction cs arbitrary: s)
  case Nil
  then show ?case by simp
next
  case (Cons c cs)
  show ?case
  proof (cases "frame_ok c")
    case True
    have w: "writeMessage (Some s) c = Some (Inr (), Some (s\<lparr>tx := tx s @ frame_bytes c\<rparr>))"
      by (rule writeMessage_writable [OF True Cons.prems])
    have "wsched (s\<lparr>tx := tx s @ frame_bytes c\<rparr>) = wsched s" by simp
    then have "wsched (s\<lparr>tx := tx s @ frame_bytes c\<rparr>) = sconst (Writable k)"
      using Cons.prems by (rule trans)
    from Cons.IH [OF this] True w show ?thesis by simp
  next
    case False
    then have "frame_buffer c = Inl OverflowError" by (simp add: frame_buffer_error)
    then show ?thesis using False by (simp add: writeMessage_def)
  qed
qed

text \<open>C11: A frame carrying command id 0 is received as a command with a fresh id taken from Command._id, which is incremented.\<close>

theorem readMessage_id0:
  assumes "frame_ok c" and "cmd_id c = 0" and "rx s = frame_bytes c @ rest"
    and "grants s = [] \<or> 14 \<le> hd (grants s)"
  shows "\<exists>gs. readMessage (Some s) n =
     Some (Inr (Some (c\<lparr>cmd_id := n\<rparr>)), Some (s\<lparr>rx := rest, grants := gs\<rparr>), n + 1)"
  using readMessage_frame [OF assms(1,3,4), of n] assms(2)
  by (simp add: Command_init_auto Command_eq_fields_id)

text \<open>C6: readMessage on a socket with no data and an open peer returns None (no message) without raising and without consuming anything.\<close>

theorem readMessage_no_data:
  "rx s = [] \<Longrightarrow> peer s = Open \<Longrightarrow> readMessage (Some s) n = Some (Inr None, Some s, n)"
  by (simp add: readMessage_def sock_readable_def)

text \<open>C7: readMessage on a socket whose peer has closed with nothing pending raises ClientDisconnectedException.\<close>

theorem readMessage_eof:
  "rx s = [] \<Longrightarrow> peer s = Closed \<Longrightarrow>
   readMessage (Some s) n = Some (Inl ClientDisconnected, Some s, n)"
  by (simp add: readMessage_def sock_readable_def sock_recv_eof)

text \<open>C8: When the kernel hands out fewer than 14 bytes of a complete pending frame, readMessage raises ClientDisconnectedException and the bytes it read are lost, leaving the stream misaligned.\<close>

theorem readMessage_partial_header:
  assumes "rx s = frame_bytes c @ rest" and "grants s = g # gs" and "g < 14"
  shows "readMessage (Some s) n =
     Some (Inl ClientDisconnected,
           Some (s\<lparr>rx := drop (max 1 g) (frame_bytes c) @ rest, grants := gs\<rparr>), n)"
proof -
  have "rx s \<noteq> []" and "max 1 g < 14" and "max 1 g \<le> length (frame_bytes c)"
    using assms by (simp_all add: frame_bytes_def)
  then show ?thesis using assms
    by (simp add: readMessage_def sock_readable_def sock_recv_data recv_size_def min_absorb2)
qed

text \<open>C9: If the peer closes after sending a header that declares a payload below 1 MiB and only part of that payload, readMessage never returns: recv keeps returning empty bytes and the payload loop makes no progress.\<close>

theorem readMessage_eof_in_payload:
  assumes "frame_ok c" and "length (cmd_data c) < 2 ^ 20"
    and "rx s = frame_header c @ part" and "length part < length (cmd_data c)"
    and "peer s = Closed" and "grants s = [] \<or> 14 \<le> hd (grants s)"
  shows "readMessage (Some s) n = None"
proof -
  have "readMessage (Some s) n =
      read_body (frame_header c) (s\<lparr>rx := part, grants := tl (grants s)\<rparr>) n"
    using assms(3,6) by (simp add: readMessage_header)
  moreover have "recv_loop (length (cmd_data c)) (s\<lparr>rx := part, grants := tl (grants s)\<rparr>) [] = None"
    using assms(4,5) by (simp add: recv_loop_short_None)
  ultimately show ?thesis using assms(1)
    by (simp add: read_body_def parse_frame_header)
qed

text \<open>C10: A frame with a type code that is no MessageType is consumed whole and reported as ClientDisconnectedException, not as an unknown-type error.\<close>

theorem readMessage_unknown_type:
  assumes "rx s = raw_header (int (length d)) i code @ d @ rest"
    and "length d < 2 ^ 64" and "0 \<le> i" and "i < 2 ^ 32" and "0 \<le> code" and "code < 2 ^ 16"
    and "code \<notin> range MessageType_value" and "grants s = [] \<or> 14 \<le> hd (grants s)"
  shows "\<exists>gs. readMessage (Some s) n =
           Some (Inl ClientDisconnected, Some (s\<lparr>rx := rest, grants := gs\<rparr>), n)"
proof -
  have len: "length (raw_header (int (length d)) i code) = 14" by (simp add: raw_header_def)
  obtain gs where loop: "recv_loop (length d) (s\<lparr>rx := d @ rest, grants := tl (grants s)\<rparr>) [] =
      Some (Inr d, s\<lparr>rx := rest, grants := gs\<rparr>)"
    using recv_loop_enough [of "length d" "s\<lparr>rx := d @ rest, grants := tl (grants s)\<rparr>" "[]"]
    by auto
  have "intToMessageType code = Inl ValueError"
    using assms(7) by (simp add: intToMessageType_ValueError)
  then have "readMessage (Some s) n = Some (Inl ClientDisconnected, Some (s\<lparr>rx := rest, grants := gs\<rparr>), n)"
    using assms loop len
    by (simp add: readMessage_header [OF assms(1) len] read_body_def parse_raw_header)
  then show ?thesis by blast
qed

subsection \<open>Sending\<close>

text \<open>C4: If the send schedule offers at least as many writable rounds as the frame has bytes and no send fails, writeMessage returns and the socket has accepted exactly the frame bytes, in order, after what it held before.\<close>

theorem writeMessage_delivers:
  assumes "frame_ok c" and "\<forall>e\<in>set xs. e \<noteq> SendFails"
    and "length (frame_bytes c) \<le> count_writable xs" and "wsched s = xs @- rest"
  shows "\<exists>w. writeMessage (Some s) c =
           Some (Inr (), Some (s\<lparr>tx := tx s @ frame_bytes c, wsched := w\<rparr>))"
  using send_loop_completes [of xs "frame_bytes c" 0 s rest] assms
  by (auto simp: writeMessage_def frame_buffer_ok)

text \<open>C5: writeMessage on a socket that never becomes writable never returns: the send loop has no timeout.\<close>

theorem writeMessage_stalls:
  "frame_ok c \<Longrightarrow> wsched s = sconst NotWritable \<Longrightarrow> writeMessage (Some s) c = None"
  using frame_bytes_nonempty [of c] by (simp add: writeMessage_def frame_buffer_ok send_loop_stalls)

text \<open>C12: writeMessage on a command whose id or payload length does not fit its field raises OverflowError before sending any byte.\<close>

theorem writeMessage_overflow:
  "\<not> frame_ok c \<Longrightarrow> writeMessage (Some s) c = Some (Inl OverflowError, Some s)"
  using frame_buffer_error [of c] by (simp add: writeMessage_def)

text \<open>C13: A failing send propagates out of writeMessage as the socket error itself, not as ClientDisconnectedException.\<close>

theorem writeMessage_send_error:
  "frame_ok c \<Longrightarrow> wsched s = SendFails ## w \<Longrightarrow>
   writeMessage (Some s) c = Some (Inl OSError, Some (s\<lparr>wsched := w\<rparr>))"
  using frame_bytes_nonempty [of c]
  by (simp add: writeMessage_def frame_buffer_ok send_loop.simps [of "frame_bytes c"]
      sock_send_round_def)

lemma count_writable_replicate [simp]: "count_writable (replicate n (Writable k)) = n"
  by (induction n) simp_all

lemma demo_command_ok: "frame_ok demo_command"
  by (simp add: demo_command_def frame_ok_def)

lemma length_frame_bytes_demo: "length (frame_bytes demo_command) = 16"
  by (simp add: frame_bytes_def demo_command_def)

lemma not_code_50: "(50 :: int) \<notin> range MessageType_value"
proof
  assume "(50 :: int) \<in> range MessageType_value"
  then obtain t where "MessageType_value t = 50" by auto
  with MessageType_value_range [of t] show False by simp
qed

text \<open>C3: The header writeMessage builds is the specified 14-byte little-endian layout (8-byte length, 4-byte id, 2-byte type code) followed by the payload when the id fits 32 bits and the length 64 bits, and OverflowError otherwise.\<close>

theorem frame_buffer_spec:
  "frame_buffer c = (if frame_ok c then Inr (frame_bytes c) else Inl OverflowError)"
  using frame_buffer_ok [of c] frame_buffer_error [of c] by auto

subsection \<open>The theorems at concrete inputs\<close>

theorem readMessage_roundtrip_witness:
  "\<exists>gs. readMessage (Some (demo_sock (frame_bytes demo_command @ []) Open [] (sconst NotWritable))) 100
     = Some (Inr (Some demo_command),
             Some ((demo_sock (frame_bytes demo_command @ []) Open [] (sconst NotWritable))
                     \<lparr>rx := [], grants := gs\<rparr>), 100)"
  by (rule readMessage_roundtrip) (simp_all add: demo_command_ok demo_sock_def, simp add: demo_command_def)

theorem readMessage_id0_witness:
  "\<exists>gs. readMessage (Some (demo_sock (frame_bytes (demo_command\<lparr>cmd_id := 0\<rparr>) @ []) Open [] (sconst NotWritable))) 100
     = Some (Inr (Some (demo_command\<lparr>cmd_id := 0\<rparr>\<lparr>cmd_id := 100\<rparr>)),
             Some ((demo_sock (frame_bytes (demo_command\<lparr>cmd_id := 0\<rparr>) @ []) Open [] (sconst NotWritable))
                     \<lparr>rx := [], grants := gs\<rparr>), 100 + 1)"
  by (rule readMessage_id0) (simp_all add: demo_sock_def frame_ok_def demo_command_def)

theorem readMessage_no_data_witness:
  "readMessage (Some (demo_sock [] Open [] (sconst NotWritable))) 100
     = Some (Inr None, Some (demo_sock [] Open [] (sconst NotWritable)), 100)"
  by (rule readMessage_no_data) (simp_all add: demo_sock_def)

theorem readMessage_eof_witness:
  "readMessage (Some (demo_sock [] Closed [] (sconst NotWritable))) 100
     = Some (Inl ClientDisconnected, Some (demo_sock [] Closed [] (sconst NotWritable)), 100)"
  by (rule readMessage_eof) (simp_all add: demo_sock_def)

theorem readMessage_partial_header_witness:
  "readMessage (Some (demo_sock (frame_bytes demo_command @ []) Open [3] (sconst NotWritable))) 100
     = Some (Inl ClientDisconnected,
             Some ((demo_sock (frame_bytes demo_command @ []) Open [3] (sconst NotWritable))
                     \<lparr>rx := drop (max 1 3) (frame_bytes demo_command) @ [], grants := []\<rparr>), 100)"
  by (rule readMessage_partial_header) (simp_all add: demo_sock_def)

theorem readMessage_eof_in_payload_witness:
  "readMessage (Some (demo_sock (frame_header demo_command @ [1]) Closed [] (sconst NotWritable))) 100
     = None"
  by (rule readMessage_eof_in_payload [of demo_command])
    (simp_all add: demo_command_ok demo_sock_def, simp_all add: demo_command_def)

theorem readMessage_unknown_type_witness:
  "\<exists>gs. readMessage (Some (demo_sock (raw_header (int (length [1, 2 :: byte])) 7 50 @ [1, 2] @ [])
                                     Open [] (sconst NotWritable))) 100
     = Some (Inl ClientDisconnected,
             Some ((demo_sock (raw_header (int (length [1, 2 :: byte])) 7 50 @ [1, 2] @ [])
                                     Open [] (sconst NotWritable)) \<lparr>rx := [], grants := gs\<rparr>), 100)"
  by (rule readMessage_unknown_type [where d = "[1, 2]" and i = 7 and code = 50 and rest = "[]"])
    (simp_all add: demo_sock_def not_code_50)

theorem writeMessage_delivers_witness:
  "\<exists>w. writeMessage (Some (demo_sock [] Open [] (replicate 16 (Writable 1) @- sconst NotWritable))) demo_command =
      Some (Inr (), Some ((demo_sock [] Open [] (replicate 16 (Writable 1) @- sconst NotWritable))
                            \<lparr>tx := tx (demo_sock [] Open [] (replicate 16 (Writable 1) @- sconst NotWritable)) @ frame_bytes demo_command, wsched := w\<rparr>))"
  by (rule writeMessage_delivers [where xs = "replicate 16 (Writable 1)" and rest = "sconst NotWritable"])
    (simp_all add: demo_command_ok demo_sock_def length_frame_bytes_demo)

theorem writeMessage_stalls_witness:
  "writeMessage (Some (demo_sock [] Open [] (sconst NotWritable))) demo_command = None"
  by (rule writeMessage_stalls) (simp_all add: demo_command_ok demo_sock_def)

theorem writeMessage_overflow_witness:
  "writeMessage (Some (demo_sock [] Open [] (sconst NotWritable))) (demo_command\<lparr>cmd_id := 2 ^ 32\<rparr>)
     = Some (Inl OverflowError, Some (demo_sock [] Open [] (sconst NotWritable)))"
  by (rule writeMessage_overflow) (simp add: frame_ok_def)

theorem writeMessage_send_error_witness:
  "writeMessage (Some (demo_sock [] Open [] (SendFails ## sconst NotWritable))) demo_command
     = Some (Inl OSError, Some ((demo_sock [] Open [] (SendFails ## sconst NotWritable))
                                 \<lparr>wsched := sconst NotWritable\<rparr>))"
  by (rule writeMessage_send_error) (simp_all add: demo_command_ok demo_sock_def)

theorem readMessages_in_order_witness:
  "readMessages 2 (Some (demo_sock (frame_bytes demo_command @ frame_bytes (demo_command\<lparr>cmd_id := 0\<rparr>) @ []) Open [] (sconst NotWritable))) 100 =
     Some (Inr [demo_command, demo_command\<lparr>cmd_id := 100\<rparr>],
           Some ((demo_sock (frame_bytes demo_command @ frame_bytes (demo_command\<lparr>cmd_id := 0\<rparr>) @ []) Open [] (sconst NotWritable))\<lparr>rx := []\<rparr>), 101)"
proof -
  have "readMessages (length [demo_command, demo_command\<lparr>cmd_id := 0\<rparr>]) (Some (demo_sock (frame_bytes demo_command @ frame_bytes (demo_command\<lparr>cmd_id := 0\<rparr>) @ []) Open [] (sconst NotWritable))) 100 =
     Some (Inr (fst (Command_inits (map (\<lambda>c. (cmd_type c, Some (cmd_data c), cmd_id c))
                   [demo_command, demo_command\<lparr>cmd_id := 0\<rparr>]) 100)),
           Some ((demo_sock (frame_bytes demo_command @ frame_bytes (demo_command\<lparr>cmd_id := 0\<rparr>) @ []) Open [] (sconst NotWritable))\<lparr>rx := []\<rparr>),
           snd (Command_inits (map (\<lambda>c. (cmd_type c, Some (cmd_data c), cmd_id c))
                   [demo_command, demo_command\<lparr>cmd_id := 0\<rparr>]) 100))"
    by (rule readMessages_in_order) (simp_all add: demo_sock_def demo_command_ok frame_ok_def demo_command_def)
  then show ?thesis by (simp add: Command_init_def demo_command_def numeral_2_eq_2)
qed

theorem writeMessages_in_order_witness:
  "writeMessages (Some (demo_sock [] Open [] (sconst (Writable 4)))) [demo_command, demo_command\<lparr>cmd_id := 2 ^ 32\<rparr>, demo_command] =
     Some (Inl OverflowError, Some ((demo_sock [] Open [] (sconst (Writable 4)))\<lparr>tx := frame_bytes demo_command\<rparr>))"
proof -
  have w: "wsched (demo_sock [] Open [] (sconst (Writable 4))) = sconst (Writable 4)" by (simp add: demo_sock_def)
  have nl: "\<not> list_all frame_ok [demo_command, demo_command\<lparr>cmd_id := 2 ^ 32\<rparr>, demo_command]" by (simp add: frame_ok_def)
  have tw: "takeWhile frame_ok [demo_command, demo_command\<lparr>cmd_id := 2 ^ 32\<rparr>, demo_command] = [demo_command]"
    by (simp add: frame_ok_def demo_command_def)
  have "writeMessages (Some (demo_sock [] Open [] (sconst (Writable 4)))) [demo_command, demo_command\<lparr>cmd_id := 2 ^ 32\<rparr>, demo_command] =
     Some (Inl OverflowError, Some ((demo_sock [] Open [] (sconst (Writable 4)))\<lparr>tx := tx (demo_sock [] Open [] (sconst (Writable 4))) @ concat (map frame_bytes (takeWhile frame_ok [demo_command, demo_command\<lparr>cmd_id := 2 ^ 32\<rparr>, demo_command]))\<rparr>))"
    using writeMessages_in_order [OF w, of "[demo_command, demo_command\<lparr>cmd_id := 2 ^ 32\<rparr>, demo_command]"] by (simp only: nl tw if_False)
  then show ?thesis by (simp only: tw) (simp add: demo_sock_def del: writeMessages.simps)
qed

end
