(* ===== verification/StringCodec.thy ===== *)
theory StringCodec
  imports ScalarCodec
begin

text \<open>
  The string codec of \<^verbatim>\<open>src/broadcaster/common.py\<close>: \<^verbatim>\<open>encodeString\<close> and
  \<^verbatim>\<open>decodeString\<close> (lines 71--80). A Python \<^verbatim>\<open>str\<close> is a sequence of code
  points (naturals below \<open>0x110000\<close>; Python admits lone surrogates in a
  \<^verbatim>\<open>str\<close>). The module relies on the built-in \<^verbatim>\<open>str.encode()\<close> and
  \<^verbatim>\<open>bytes.decode()\<close>, both strict UTF-8; they are not code of the repository and
  are modelled here from the UTF-8 standard (RFC 3629) as CPython applies it:
  \<open>utf8_char\<close> encodes one code point and raises \<^verbatim>\<open>UnicodeEncodeError\<close> on a
  surrogate; \<open>utf8_decode_nat\<close> rejects stray continuation bytes, overlong forms,
  surrogates, code points above \<open>0x10FFFF\<close> and truncated sequences with
  \<^verbatim>\<open>UnicodeDecodeError\<close>. The lemmas prove the UTF-8 round trip for every string
  of Unicode scalar values, the string codec's round trip at any offset, the
  exception \<^verbatim>\<open>decodeString\<close> can raise, and that it does not check the declared length
  against the buffer.
\<close>

text \<open>A Python string: its code points.\<close>

type_synonym pystr = "nat list"

text \<open>One code point to its UTF-8 encoding, as byte values.\<close>

definition utf8_char :: "nat \<Rightarrow> exc + nat list" where
  "utf8_char c =
     (if c < 0x80 then Inr [c]
      else if c < 0x800 then Inr [0xC0 + c div 64, 0x80 + c mod 64]
      else if c < 0x10000 then
        (if 0xD800 \<le> c \<and> c < 0xE000 then Inl UnicodeEncodeError
         else Inr [0xE0 + c div 4096, 0x80 + c div 64 mod 64, 0x80 + c mod 64])
      else if c < 0x110000 then
        Inr [0xF0 + c div 262144, 0x80 + c div 4096 mod 64, 0x80 + c div 64 mod 64, 0x80 + c mod 64]
      else Inl UnicodeEncodeError)"

fun utf8_encode_nat :: "pystr \<Rightarrow> exc + nat list" where
  "utf8_encode_nat [] = Inr []"
| "utf8_encode_nat (c # cs) = sbind (utf8_char c) (\<lambda>e. sbind (utf8_encode_nat cs) (\<lambda>r. Inr (e @ r)))"

text \<open>Strict UTF-8 decoding of byte values: a continuation byte is \<open>10xxxxxx\<close>;
  every sequence must be the shortest form of a scalar value.\<close>

definition is_cont :: "nat \<Rightarrow> bool" where
  "is_cont b \<longleftrightarrow> 0x80 \<le> b \<and> b < 0xC0"

definition scons :: "nat \<Rightarrow> exc + pystr \<Rightarrow> exc + pystr" where
  "scons c r = sbind r (\<lambda>cs. Inr (c # cs))"

fun utf8_decode_nat :: "nat list \<Rightarrow> exc + pystr" where
  "utf8_decode_nat [] = Inr []"
| "utf8_decode_nat (b # bs) =
     (if b < 0x80 then scons b (utf8_decode_nat bs)
      else if 0xC2 \<le> b \<and> b < 0xE0 then
        (case bs of
           c1 # r \<Rightarrow>
             if is_cont c1 then scons ((b - 0xC0) * 64 + (c1 - 0x80)) (utf8_decode_nat r)
             else Inl UnicodeDecodeError
         | [] \<Rightarrow> Inl UnicodeDecodeError)
      else if 0xE0 \<le> b \<and> b < 0xF0 then
        (case bs of
           c1 # c2 # r \<Rightarrow>
             (let cp = (b - 0xE0) * 4096 + (c1 - 0x80) * 64 + (c2 - 0x80)
              in if is_cont c1 \<and> is_cont c2 \<and> 0x800 \<le> cp \<and> \<not> (0xD800 \<le> cp \<and> cp < 0xE000)
                 then scons cp (utf8_decode_nat r) else Inl UnicodeDecodeError)
         | _ \<Rightarrow> Inl UnicodeDecodeError)
      else if 0xF0 \<le> b \<and> b < 0xF5 then
        (case bs of
           c1 # c2 # c3 # r \<Rightarrow>
             (let cp = (b - 0xF0) * 262144 + (c1 - 0x80) * 4096 + (c2 - 0x80) * 64 + (c3 - 0x80)
              in if is_cont c1 \<and> is_cont c2 \<and> is_cont c3 \<and> 0x10000 \<le> cp \<and> cp < 0x110000
                 then scons cp (utf8_decode_nat r) else Inl UnicodeDecodeError)
         | _ \<Rightarrow> Inl UnicodeDecodeError)
      else Inl UnicodeDecodeError)"

text \<open>The code points UTF-8 can encode: Unicode scalar values.\<close>

definition scalar_ok :: "nat \<Rightarrow> bool" where
  "scalar_ok c \<longleftrightarrow> c < 0x110000 \<and> \<not> (0xD800 \<le> c \<and> c < 0xE000)"

text \<open>\<^verbatim>\<open>str.encode()\<close> and \<^verbatim>\<open>bytes.decode()\<close> on byte strings.\<close>

definition utf8_encode :: "pystr \<Rightarrow> exc + bytes" where
  "utf8_encode s = sbind (utf8_encode_nat s) (\<lambda>ns. Inr (map of_nat ns))"

definition utf8_decode :: "bytes \<Rightarrow> exc + pystr" where
  "utf8_decode bs = utf8_decode_nat (map unat bs)"

text \<open>Lines 71--73 and 75--80. The slices are Python's: they never raise, and
  are clipped at the end of the buffer.\<close>

definition encodeString :: "pystr \<Rightarrow> exc + bytes" where
  "encodeString value =
     sbind (utf8_encode value) (\<lambda>encodedValue.
     sbind (intToBytes (int (length encodedValue)) 4) (\<lambda>len. Inr (len @ encodedValue)))"

definition decodeString :: "bytes \<Rightarrow> nat \<Rightarrow> exc + pystr \<times> nat" where
  "decodeString data index =
     (let stringLength = bytesToInt (py_slice data index (index + 4));
          start = index + 4;
          stop = start + nat stringLength
      in sbind (utf8_decode (py_slice data start stop)) (\<lambda>value. Inr (value, stop)))"

subsection \<open>UTF-8\<close>

lemma div_mod_split: "(c :: nat) div (k * m) * (k * m) + c div k mod m * k + c mod k = c"
  by (metis div_mult2_eq div_mult_mod_eq mult.assoc mult.commute distrib_right)

lemma decode_char:
  assumes "scalar_ok c"
  shows "\<exists>e. utf8_char c = Inr e \<and> (\<forall>x\<in>set e. x < 256) \<and> 1 \<le> length e \<and> length e \<le> 4 \<and>
             utf8_decode_nat (e @ r) = scons c (utf8_decode_nat r)"
proof -
  have m: "c mod 64 < 64" "c div 64 mod 64 < 64" "c div 4096 mod 64 < 64"
    "c mod 64 < 128" "c div 64 mod 64 < 128" "c div 4096 mod 64 < 128" by simp_all
  consider "c < 0x80" | "0x80 \<le> c" "c < 0x800" | "0x800 \<le> c" "c < 0x10000" | "0x10000 \<le> c" "c < 0x110000"
    using assms unfolding scalar_ok_def by linarith
  then show ?thesis
  proof cases
    case 1 then show ?thesis by (simp add: utf8_char_def)
  next
    case 2
    have "2 \<le> c div 64" "c div 64 < 32" using 2 by (simp_all add: div_less_iff_less_mult less_eq_div_iff_mult_less_eq)
    then show ?thesis using 2 m
      by (simp add: utf8_char_def is_cont_def)
  next
    case 3
    have a: "c div 4096 * 4096 + c div 64 mod 64 * 64 + c mod 64 = c"
      using div_mod_split [of c 64 64] by simp
    have "c div 4096 < 16" using 3 by (simp add: div_less_iff_less_mult)
    then show ?thesis using 3 assms m
      by (simp add: utf8_char_def is_cont_def scalar_ok_def Let_def a)
  next
    case 4
    have a: "c div 262144 * 262144 + c div 4096 mod 64 * 4096 + c div 64 mod 64 * 64 + c mod 64 = c"
      using div_mod_split [of c 4096 64] mod_mult2_eq [of c 64 64] by simp
    have "1 \<le> c div 65536" "c div 262144 < 5" using 4 by (simp_all add: div_less_iff_less_mult less_eq_div_iff_mult_less_eq)
    then show ?thesis using 4 m
      by (simp add: utf8_char_def is_cont_def Let_def a)
  qed
qed


lemma utf8_encode_nat_ok:
  "\<forall>c\<in>set s. scalar_ok c \<Longrightarrow>
   \<exists>ns. utf8_encode_nat s = Inr ns \<and> (\<forall>x\<in>set ns. x < 256) \<and> length ns \<le> 4 * length s \<and>
        utf8_decode_nat ns = Inr s"
proof (induction s)
  case Nil
  then show ?case by simp
next
  case (Cons c s)
  then obtain ns where ns: "utf8_encode_nat s = Inr ns" "\<forall>x\<in>set ns. x < 256"
      "length ns \<le> 4 * length s" "utf8_decode_nat ns = Inr s" by auto
  obtain e where "utf8_char c = Inr e" "\<forall>x\<in>set e. x < 256" "length e \<le> 4"
      "utf8_decode_nat (e @ ns) = scons c (utf8_decode_nat ns)"
    using decode_char [of c ns] Cons.prems by auto
  with ns show ?case by (auto simp: scons_def)
qed

lemma unat_of_nat_byte: "x < 256 \<Longrightarrow> unat (of_nat x :: byte) = x"
  by (simp add: unat_of_nat)

lemma utf8_encode_ok:
  assumes "\<forall>c\<in>set s. scalar_ok c"
  shows "\<exists>bs. utf8_encode s = Inr bs \<and> length bs \<le> 4 * length s \<and> utf8_decode bs = Inr s"
proof -
  obtain ns where ns: "utf8_encode_nat s = Inr ns" "\<forall>x\<in>set ns. x < 256"
      "length ns \<le> 4 * length s" "utf8_decode_nat ns = Inr s"
    using utf8_encode_nat_ok [OF assms] by auto
  have "map unat (map of_nat ns :: bytes) = ns"
    using ns(2) by (induction ns) (simp_all add: unat_of_nat_byte)
  with ns show ?thesis by (simp add: utf8_encode_def utf8_decode_def)
qed

subsection \<open>The string codec\<close>

lemma utf8_decode_nat_error: "utf8_decode_nat ns = Inl e \<Longrightarrow> e = UnicodeDecodeError"
proof (induction ns rule: utf8_decode_nat.induct)
  case 1
  then show ?case by simp
next
  case (2 b bs)
  then show ?case
    by (simp add: scons_def sbind_def Let_def split: if_split_asm list.split_asm sum.split_asm)
qed
lemma decodeString_at:
  "decodeString data index =
     sbind (utf8_decode (py_slice data (index + 4) (index + 4 + nat (bytesToInt (py_slice data index (index + 4))))))
       (\<lambda>value. Inr (value, index + 4 + nat (bytesToInt (py_slice data index (index + 4)))))"
  by (simp add: decodeString_def Let_def)

lemma encodeString_layout:
  assumes "utf8_encode s = Inr e" and "length e < 2 ^ 32"
  shows "encodeString s = Inr (int_to_le 4 (int (length e)) @ e) \<and>
         decodeString (pre @ int_to_le 4 (int (length e)) @ e @ post) (length pre) =
           sbind (utf8_decode e) (\<lambda>v. Inr (v, length pre + 4 + length e))"
proof -
  have small: "int (length e) < 256 ^ 4" using assms(2) by simp
  have hdr: "bytesToInt (int_to_le 4 (int (length e))) = int (length e)"
    using small by (simp add: bytesToInt_def int_from_le_to_le)
  have "py_slice ((pre @ int_to_le 4 (int (length e))) @ e @ post)
          (length (pre @ int_to_le 4 (int (length e)))) (length (pre @ int_to_le 4 (int (length e))) + length e) = e"
    by (rule py_slice_exact) simp
  then have body: "py_slice (pre @ int_to_le 4 (int (length e)) @ e @ post) (length pre + 4) (length pre + 4 + length e) = e"
    by simp
  have "py_slice (pre @ int_to_le 4 (int (length e)) @ e @ post) (length pre) (length pre + 4) = int_to_le 4 (int (length e))"
    by (rule py_slice_exact) simp
  then show ?thesis
    using assms small body hdr by (simp add: encodeString_def intToBytes_Inr decodeString_at)
qed

lemma encodeString_roundtrip:
  assumes "\<forall>c\<in>set s. scalar_ok c" and "4 * length s < 2 ^ 32"
  shows "\<exists>bs. encodeString s = Inr bs \<and>
           (\<forall>pre post. decodeString (pre @ bs @ post) (length pre) = Inr (s, length pre + length bs))"
proof -
  obtain e where e: "utf8_encode s = Inr e" "length e \<le> 4 * length s" "utf8_decode e = Inr s"
    using utf8_encode_ok [OF assms(1)] by auto
  then have "length e < 2 ^ 32" using assms(2) by simp
  with e show ?thesis using encodeString_layout [OF e(1)] by simp
qed

text \<open>C27: encodeString writes the length of the UTF-8 encoding (a byte count, not a character count) in four bytes and then the encoding; decodeString at any offset reads the string back and returns the offset just past it.\<close>

theorem decodeString_encodeString:
  assumes "\<forall>c\<in>set s. scalar_ok c" and "4 * length s < 2 ^ 32"
  shows "\<exists>e. utf8_encode s = Inr e \<and> encodeString s = Inr (int_to_le 4 (int (length e)) @ e) \<and>
             decodeString (pre @ int_to_le 4 (int (length e)) @ e @ post) (length pre) =
               Inr (s, length pre + 4 + length e)"
proof -
  obtain e where e: "utf8_encode s = Inr e" "length e \<le> 4 * length s" "utf8_decode e = Inr s"
    using utf8_encode_ok [OF assms(1)] by auto
  then have "length e < 2 ^ 32" using assms(2) by simp
  with e show ?thesis using encodeString_layout [OF e(1), of pre post] by simp
qed

text \<open>C33: decodeString never raises anything but UnicodeDecodeError: the slices never fail, whatever the offset and the declared length.\<close>

theorem decodeString_UnicodeDecodeError:
  "decodeString data index = Inl e \<Longrightarrow> e = UnicodeDecodeError"
  by (auto simp: decodeString_at utf8_decode_def sbind_eq_Inl dest: utf8_decode_nat_error)

text \<open>C32: When the declared length runs past the end of the buffer, decodeString does not fail: it decodes the bytes that are there and returns an offset beyond the end of the buffer.\<close>

theorem decodeString_overrun:
  assumes "length data < index + 4 + nat (bytesToInt (py_slice data index (index + 4)))"
    and "utf8_decode (drop (index + 4) data) = Inr v"
  shows "decodeString data index = Inr (v, index + 4 + nat (bytesToInt (py_slice data index (index + 4)))) \<and>
         length data < index + 4 + nat (bytesToInt (py_slice data index (index + 4)))"
proof -
  have "py_slice data (index + 4) (index + 4 + nat (bytesToInt (py_slice data index (index + 4)))) =
        drop (index + 4) data"
    using assms(1) by (simp add: py_slice_def)
  then show ?thesis using assms by (simp add: decodeString_at)
qed

theorem decodeString_encodeString_witness:
  "utf8_encode [0xE9, 0x20AC] = Inr [0xC3, 0xA9, 0xE2, 0x82, 0xAC] \<and>
   decodeString ([7] @ int_to_le 4 (int (length [0xC3, 0xA9, 0xE2, 0x82, 0xAC :: byte])) @
                 [0xC3, 0xA9, 0xE2, 0x82, 0xAC] @ [9]) (length [7 :: byte]) = Inr ([0xE9, 0x20AC], 1 + 4 + 5)"
proof -
  have "\<forall>c\<in>set [0xE9, 0x20AC]. scalar_ok c" "4 * length [0xE9, 0x20AC :: nat] < 2 ^ 32"
    by (simp_all add: scalar_ok_def)
  from decodeString_encodeString [OF this, of "[7]" "[9]"]
  obtain e where enc: "utf8_encode [0xE9, 0x20AC] = Inr e"
      and dec: "decodeString ([7] @ int_to_le 4 (int (length e)) @ e @ [9]) (length [7 :: byte]) =
         Inr ([0xE9, 0x20AC], length [7 :: byte] + 4 + length e)"
    by blast
  have val: "utf8_encode [0xE9, 0x20AC] = Inr [0xC3, 0xA9, 0xE2, 0x82, 0xAC]"
    by (simp add: utf8_encode_def utf8_char_def)
  with enc have "e = [0xC3, 0xA9, 0xE2, 0x82, 0xAC]" by simp
  with dec val show ?thesis by simp
qed

theorem decodeString_UnicodeDecodeError_witness:
  "decodeString [1, 0, 0, 0, 0xFF] 0 = Inl UnicodeDecodeError"
proof -
  have "decodeString [1, 0, 0, 0, 0xFF] 0 = Inl (case decodeString [1, 0, 0, 0, 0xFF] 0 of Inl e \<Rightarrow> e | Inr _ \<Rightarrow> OSError)"
    by (simp add: decodeString_at utf8_decode_def bytesToInt_def py_slice_def)
  with decodeString_UnicodeDecodeError [of "[1, 0, 0, 0, 0xFF]" 0] show ?thesis
    by metis
qed

theorem decodeString_overrun_witness:
  "decodeString [5, 0, 0, 0, 0x41] 0 = Inr ([0x41], 9) \<and> length [5, 0, 0, 0, 0x41 :: byte] < 9"
  using decodeString_overrun [of "[5, 0, 0, 0, 0x41]" 0 "[0x41]"]
  by (simp add: bytesToInt_def py_slice_def utf8_decode_def scons_def)

end
