(* ===== verification/ArrayCodec.thy ===== *)
theory ArrayCodec
  imports StringCodec
begin

text \<open>
  The array codecs of \<^verbatim>\<open>src/broadcaster/common.py\<close> (lines 121--170): the
  string array encoder and decoder, the generic fixed-stride decoder
  \<^verbatim>\<open>decodeArray\<close> with its instances, and \<^verbatim>\<open>decodeIntArray\<close>, which has its own
  loop. Each Python \<^verbatim>\<open>for\<close> loop is a function recursive on the number of
  iterations left, with the loop's variables as parameters. A tuple returned by
  \<^verbatim>\<open>struct.unpack\<close> is a list of \<open>pyval\<close>; \<^verbatim>\<open>values.append(t)\<close> adds it as one
  element, \<^verbatim>\<open>values.extend(t)\<close> adds its items. The local \<^verbatim>\<open>end\<close> of
  \<^verbatim>\<open>decodeIntArray\<close> is assigned only inside the loop; it is an option, and
  reading it unassigned raises \<^verbatim>\<open>UnboundLocalError\<close>.

  The repository has no encoder for the fixed-width arrays: \<open>encodeArray_spec\<close>
  is the layout of the specification (section 4.2), a four-byte count followed by
  the packed elements, against which the decoders are proved.
\<close>

text \<open>Lines 121--125.\<close>

fun encodeStringArray_loop :: "bytes \<Rightarrow> pystr list \<Rightarrow> exc + bytes" where
  "encodeStringArray_loop buffer [] = Inr buffer"
| "encodeStringArray_loop buffer (item # items) =
     sbind (encodeString item) (\<lambda>e. encodeStringArray_loop (buffer @ e) items)"

definition encodeStringArray :: "pystr list \<Rightarrow> exc + bytes" where
  "encodeStringArray values =
     sbind (encodeInt (int (length values))) (\<lambda>buffer. encodeStringArray_loop buffer values)"

text \<open>Lines 127--134.\<close>

fun decodeStringArray_loop :: "nat \<Rightarrow> bytes \<Rightarrow> nat \<Rightarrow> pystr list \<Rightarrow> exc + pystr list \<times> nat" where
  "decodeStringArray_loop 0 data index values = Inr (values, index)"
| "decodeStringArray_loop (Suc n) data index values =
     sbind (decodeString data index) (\<lambda>(string, index'). decodeStringArray_loop n data index' (values @ [string]))"

definition decodeStringArray :: "bytes \<Rightarrow> nat \<Rightarrow> exc + pystr list \<times> nat" where
  "decodeStringArray data index =
     (let count = bytesToInt (py_slice data index (index + 4))
      in decodeStringArray_loop (nat count) data (index + 4) [])"

text \<open>Lines 136--145.\<close>

fun decodeArray_loop ::
  "nat \<Rightarrow> bytes \<Rightarrow> fmt list \<Rightarrow> nat \<Rightarrow> nat \<Rightarrow> nat \<Rightarrow> pyval list list \<Rightarrow> exc + pyval list list \<times> nat" where
  "decodeArray_loop 0 data schema inc start stop values = Inr (values, stop)"
| "decodeArray_loop (Suc n) data schema inc start stop values =
     (let stop' = start + inc
      in sbind (struct_unpack schema (py_slice data start stop'))
           (\<lambda>v. decodeArray_loop n data schema inc stop' stop' (values @ [v])))"

definition decodeArray :: "bytes \<Rightarrow> nat \<Rightarrow> fmt list \<Rightarrow> nat \<Rightarrow> exc + pyval list list \<times> nat" where
  "decodeArray data index schema inc =
     (let count = bytesToInt (py_slice data index (index + 4));
          start = index + 4
      in decodeArray_loop (nat count) data schema inc start start [])"

text \<open>Lines 147--148.\<close>

definition decodeFloatArray :: "bytes \<Rightarrow> nat \<Rightarrow> exc + pyval list list \<times> nat" where
  "decodeFloatArray data index = decodeArray data index [Fmt_f] 4"

text \<open>Lines 150--158: the loop extends \<^verbatim>\<open>values\<close> with the items of each tuple.\<close>

fun decodeIntArray_loop ::
  "nat \<Rightarrow> bytes \<Rightarrow> nat \<Rightarrow> nat option \<Rightarrow> pyval list \<Rightarrow> exc + pyval list \<times> nat" where
  "decodeIntArray_loop 0 data start stop values =
     (case stop of None \<Rightarrow> Inl UnboundLocalError | Some e \<Rightarrow> Inr (values, e))"
| "decodeIntArray_loop (Suc n) data start stop values =
     (let stop' = start + 4
      in sbind (struct_unpack [Fmt_I] (py_slice data start stop'))
           (\<lambda>vs. decodeIntArray_loop n data stop' (Some stop') (values @ vs)))"

definition decodeIntArray :: "bytes \<Rightarrow> nat \<Rightarrow> exc + pyval list \<times> nat" where
  "decodeIntArray data index =
     (let count = bytesToInt (py_slice data index (index + 4));
          start = index + 4
      in decodeIntArray_loop (nat count) data start None [])"

text \<open>Lines 160--170.\<close>

definition decodeInt2Array :: "bytes \<Rightarrow> nat \<Rightarrow> exc + pyval list list \<times> nat" where
  "decodeInt2Array data index = decodeArray data index [Fmt_I, Fmt_I] (2 * 4)"

definition decodeInt3Array :: "bytes \<Rightarrow> nat \<Rightarrow> exc + pyval list list \<times> nat" where
  "decodeInt3Array data index = decodeArray data index [Fmt_I, Fmt_I, Fmt_I] (3 * 4)"

definition decodeVector3Array :: "bytes \<Rightarrow> nat \<Rightarrow> exc + pyval list list \<times> nat" where
  "decodeVector3Array data index = decodeArray data index [Fmt_f, Fmt_f, Fmt_f] (3 * 4)"

definition decodeVector2Array :: "bytes \<Rightarrow> nat \<Rightarrow> exc + pyval list list \<times> nat" where
  "decodeVector2Array data index = decodeArray data index [Fmt_f, Fmt_f] (2 * 4)"

text \<open>The element layout of the specification: each component packed in four
  little-endian bytes, as \<^verbatim>\<open>struct.pack\<close> with the schema would.\<close>

fun fmt_of :: "pyval \<Rightarrow> fmt" where
  "fmt_of (PyFloat _) = Fmt_f"
| "fmt_of (PyInt _) = Fmt_I"

fun pack_value :: "pyval \<Rightarrow> bytes" where
  "pack_value (PyFloat x) = pack_f x"
| "pack_value (PyInt v) = int_to_le 4 v"

fun value_ok :: "pyval \<Rightarrow> bool" where
  "value_ok (PyFloat _) = True"
| "value_ok (PyInt v) = (0 \<le> v \<and> v < 2 ^ 32)"

definition pack_element :: "pyval list \<Rightarrow> bytes" where
  "pack_element vs = concat (map pack_value vs)"

definition encodeArray_spec :: "pyval list list \<Rightarrow> bytes" where
  "encodeArray_spec elems = int_to_le 4 (int (length elems)) @ concat (map pack_element elems)"

definition element_ok :: "fmt list \<Rightarrow> pyval list \<Rightarrow> bool" where
  "element_ok schema vs \<longleftrightarrow> map fmt_of vs = schema \<and> list_all value_ok vs"

subsection \<open>Fixed-width arrays\<close>

lemma length_pack_value [simp]: "length (pack_value v) = 4"
  by (cases v) (simp_all add: pack_f_def)

lemma length_pack_element [simp]: "length (pack_element vs) = 4 * length vs"
  by (induction vs) (simp_all add: pack_element_def)

lemma unpack_pack_value: "value_ok v \<Longrightarrow> unpack_item (fmt_of v) (pack_value v) = v"
  by (cases v) (simp_all add: unpack_item_pack_f int_from_le_to_le)

lemma unpack_items_pack_element:
  "list_all value_ok vs \<Longrightarrow> unpack_items (map fmt_of vs) (pack_element vs) = vs"
  by (induction vs) (simp_all add: pack_element_def unpack_pack_value)

lemma struct_unpack_pack_element:
  "element_ok schema vs \<Longrightarrow> struct_unpack schema (pack_element vs) = Inr vs"
  by (auto simp: element_ok_def struct_unpack_def unpack_items_pack_element)

lemma decodeArray_loop_elems:
  assumes "list_all (element_ok schema) elems" and "inc = 4 * length schema"
  shows "decodeArray_loop (length elems) (pre @ concat (map pack_element elems) @ post) schema inc
           (length pre) stop acc =
         Inr (acc @ elems, if elems = [] then stop else length pre + inc * length elems)"
  using assms(1)
proof (induction elems arbitrary: pre stop acc)
  case Nil
  then show ?case by simp
next
  case (Cons vs elems)
  have li: "inc = 4 * length vs" using Cons.prems assms(2) by (auto simp: element_ok_def)
  have sl: "py_slice (pre @ pack_element vs @ rest) (length pre) (length pre + inc) = pack_element vs" for rest
    using li by (simp add: py_slice_def)
  have IH: "decodeArray_loop (length elems) (pre @ pack_element vs @ concat (map pack_element elems) @ post)
      schema inc (length pre + inc) (length pre + inc) (acc @ [vs]) =
      Inr (acc @ vs # elems, if elems = [] then length pre + inc else length pre + inc + inc * length elems)"
    using Cons.IH [of "pre @ pack_element vs" "length pre + inc" "acc @ [vs]"] Cons.prems li by simp
  show ?case using sl IH Cons.prems
    by (simp add: struct_unpack_pack_element Let_def algebra_simps)
qed

lemma length_concat_pack_element:
  "list_all (element_ok schema) elems \<Longrightarrow>
   length (concat (map pack_element elems)) = 4 * length schema * length elems"
  by (induction elems) (auto simp: element_ok_def)

lemma count_at:
  "n < 2 ^ 32 \<Longrightarrow> bytesToInt (py_slice (pre @ int_to_le 4 (int n) @ rest) (length pre) (length pre + 4)) = int n"
  by (simp add: py_slice_def bytesToInt_def int_from_le_to_le)

lemma decodeIntArray_loop_Some:
  "decodeIntArray_loop n data start (Some s) (concat acc) =
   map_sum id (\<lambda>(vss, j). (concat vss, j)) (decodeArray_loop n data [Fmt_I] 4 start s acc)"
proof (induction n arbitrary: start s acc)
  case 0
  then show ?case by simp
next
  case (Suc n)
  have "decodeIntArray_loop n data (start + 4) (Some (start + 4)) (concat acc @ vs) =
        map_sum id (\<lambda>(vss, j). (concat vss, j)) (decodeArray_loop n data [Fmt_I] 4 (start + 4) (start + 4) (acc @ [vs]))"
    for vs using Suc.IH [of "start + 4" "start + 4" "acc @ [vs]"] by (simp add: id_def)
  then show ?case by (simp add: Let_def sbind_def id_def split: sum.split)
qed

lemma decodeArray_loop_short:
  assumes "length data < start + inc * n" and "inc = 4 * length schema" and "0 < inc" and "0 < n"
  shows "decodeArray_loop n data schema inc start stop acc = Inl StructError"
  using assms(1,4)
proof (induction n arbitrary: start stop acc)
  case 0
  then show ?case by simp
next
  case (Suc n)
  show ?case
  proof (cases "length data < start + inc")
    case True
    then have "length (py_slice data start (start + inc)) \<noteq> 4 * length schema"
      using assms(2,3) by (simp; arith)
    then show ?thesis by (simp add: Let_def struct_unpack_error)
  next
    case False
    then have "length (py_slice data start (start + inc)) = 4 * length schema"
      using assms(2) by simp
    moreover have "length data < (start + inc) + inc * n" using Suc.prems by (simp add: algebra_simps)
    moreover have "0 < n" using calculation False by (cases n) simp_all
    ultimately show ?thesis using Suc.IH by (simp add: Let_def struct_unpack_def)
  qed
qed

subsection \<open>The string array loop\<close>

lemma encodeStringArray_loop_ok:
  assumes "\<forall>s\<in>set items. (\<forall>c\<in>set s. scalar_ok c) \<and> 4 * length s < 2 ^ 32"
  shows "\<exists>bs. encodeStringArray_loop buffer items = Inr (buffer @ bs) \<and>
           (\<forall>pre post acc. decodeStringArray_loop (length items) (pre @ bs @ post) (length pre) acc =
              Inr (acc @ items, length pre + length bs))"
  using assms
proof (induction items arbitrary: buffer)
  case Nil
  then show ?case by simp
next
  case (Cons s items)
  obtain es where es: "encodeString s = Inr es"
      "\<forall>pre post. decodeString (pre @ es @ post) (length pre) = Inr (s, length pre + length es)"
    using encodeString_roundtrip [of s] Cons.prems by auto
  obtain bs where bs: "encodeStringArray_loop (buffer @ es) items = Inr ((buffer @ es) @ bs)"
      "\<forall>pre post acc. decodeStringArray_loop (length items) (pre @ bs @ post) (length pre) acc =
         Inr (acc @ items, length pre + length bs)"
    using Cons.IH [of "buffer @ es"] Cons.prems by auto
  have "decodeStringArray_loop (Suc (length items)) (pre @ (es @ bs) @ post) (length pre) acc =
        Inr (acc @ s # items, length pre + length (es @ bs))" for pre post acc
    using es(2) [rule_format, of pre "bs @ post"] bs(2) [rule_format, of "pre @ es" post "acc @ [s]"]
    by simp
  with es bs show ?case by (intro exI [of _ "es @ bs"]) simp
qed

subsection \<open>Properties of the array codecs\<close>

text \<open>C31: decodeArray raises struct.error when the count announces at least one element and the buffer ends before the last of them, whatever the schema.\<close>

theorem decodeArray_truncated:
  assumes "inc = 4 * length schema" and "0 < inc"
    and "0 < nat (bytesToInt (py_slice data index (index + 4)))"
    and "length data < index + 4 + inc * nat (bytesToInt (py_slice data index (index + 4)))"
  shows "decodeArray data index schema inc = Inl StructError"
  using decodeArray_loop_short [OF assms(4,1,2,3)] by (simp add: decodeArray_def Let_def)

text \<open>C29: decodeArray, given a count-prefixed sequence of elements each of the schema's shape, returns the elements as tuples and the offset just past them, also for the empty array.\<close>

theorem decodeArray_roundtrip:
  assumes "list_all (element_ok schema) elems" and "inc = 4 * length schema"
    and "length elems < 2 ^ 32"
  shows "decodeArray (pre @ encodeArray_spec elems @ post) (length pre) schema inc =
         Inr (elems, length pre + length (encodeArray_spec elems))"
proof -
  have loop: "decodeArray_loop (length elems)
      ((pre @ int_to_le 4 (int (length elems))) @ concat (map pack_element elems) @ post) schema inc
      (length (pre @ int_to_le 4 (int (length elems)))) (length pre + 4) [] =
      Inr ([] @ elems, if elems = [] then length pre + 4
                       else length (pre @ int_to_le 4 (int (length elems))) + inc * length elems)"
    by (rule decodeArray_loop_elems [OF assms(1,2)])
  show ?thesis
    using loop count_at [OF assms(3), of pre] assms
    by (simp add: decodeArray_def encodeArray_spec_def length_concat_pack_element)
qed

text \<open>C30: decodeIntArray is decodeArray with schema I and stride 4 with the one-element tuples flattened into one list, except on a count of zero, where it raises UnboundLocalError.\<close>

theorem decodeIntArray_decodeArray:
  "decodeIntArray data index =
     (if bytesToInt (py_slice data index (index + 4)) = 0 then Inl UnboundLocalError
      else map_sum id (\<lambda>(vss, j). (concat vss, j)) (decodeArray data index [Fmt_I] 4))"
proof (cases "nat (bytesToInt (py_slice data index (index + 4)))")
  case 0
  then have "bytesToInt (py_slice data index (index + 4)) = 0"
    using bytesToInt_bounds [of "py_slice data index (index + 4)"] by simp
  then show ?thesis by (simp add: decodeIntArray_def)
next
  case (Suc m)
  then have ne: "bytesToInt (py_slice data index (index + 4)) \<noteq> 0" by auto
  have "decodeIntArray_loop m data (index + 4 + 4) (Some (index + 4 + 4)) (concat [vs]) =
        map_sum id (\<lambda>(vss, j). (concat vss, j)) (decodeArray_loop m data [Fmt_I] 4 (index + 4 + 4) (index + 4 + 4) [vs])"
    for vs by (rule decodeIntArray_loop_Some)
  then show ?thesis using Suc ne
    by (simp add: decodeIntArray_def decodeArray_def Let_def sbind_def split: sum.split)
qed

text \<open>C28: decodeStringArray reads back the list of strings that encodeStringArray wrote, at any offset, and returns the offset just past it.\<close>

theorem decodeStringArray_encodeStringArray:
  assumes "\<forall>s\<in>set items. (\<forall>c\<in>set s. scalar_ok c) \<and> 4 * length s < 2 ^ 32"
    and "length items < 2 ^ 32"
  shows "\<exists>bs. encodeStringArray items = Inr bs \<and>
           decodeStringArray (pre @ bs @ post) (length pre) = Inr (items, length pre + length bs)"
proof -
  obtain bs where bs: "encodeStringArray_loop (int_to_le 4 (int (length items))) items =
        Inr (int_to_le 4 (int (length items)) @ bs)"
      "\<forall>pre post acc. decodeStringArray_loop (length items) (pre @ bs @ post) (length pre) acc =
         Inr (acc @ items, length pre + length bs)"
    using encodeStringArray_loop_ok [OF assms(1)] by blast
  have "decodeStringArray (pre @ (int_to_le 4 (int (length items)) @ bs) @ post) (length pre) =
        Inr (items, length pre + length (int_to_le 4 (int (length items)) @ bs))"
    using count_at [OF assms(2), of pre "bs @ post"] bs(2) [rule_format, of "pre @ int_to_le 4 (int (length items))" post "[]"]
    by (simp add: decodeStringArray_def)
  with bs(1) assms(2) show ?thesis
    by (simp add: encodeStringArray_def encodeInt_def pack_I_def)
qed

theorem decodeArray_roundtrip_witness:
  "decodeArray ([7] @ encodeArray_spec [[PyInt 1, PyInt 2], [PyInt 3, PyInt 4]] @ [8]) (length [7 :: byte])
     [Fmt_I, Fmt_I] (2 * 4) = Inr ([[PyInt 1, PyInt 2], [PyInt 3, PyInt 4]], 1 + 20)"
  using decodeArray_roundtrip [of "[Fmt_I, Fmt_I]" "[[PyInt 1, PyInt 2], [PyInt 3, PyInt 4]]" "2 * 4" "[7]" "[8]"]
  by (simp add: element_ok_def encodeArray_spec_def pack_element_def)

theorem decodeStringArray_encodeStringArray_witness:
  "\<exists>bs. encodeStringArray [[104, 105], []] = Inr bs \<and>
     decodeStringArray ([] @ bs @ []) (length ([] :: bytes)) = Inr ([[104, 105], []], 0 + length bs)"
  using decodeStringArray_encodeStringArray [of "[[104, 105], []]" "[]" "[]"]
  by (simp add: scalar_ok_def)

theorem decodeArray_truncated_witness:
  "decodeArray [2, 0, 0, 0, 1, 2, 3, 4, 5] 0 [Fmt_f] 4 = Inl StructError"
  by (rule decodeArray_truncated) (simp_all add: py_slice_def bytesToInt_def)

end
