(* ===== verification/Spec2Isabelle.thy ===== *)
theory Spec2Isabelle
  imports Transport ArrayCodec
begin

text \<open>
  \<^bold>\<open>A verification library for the wire layer of the broadcaster\<close>
  (\<^verbatim>\<open>src/broadcaster/common.py\<close>, the only source file).

  \<^bold>\<open>The program.\<close> The module defines the message-type enumeration, a family of
  scalar and array codecs that build and read command payloads, the
  \<^verbatim>\<open>Command\<close> class whose constructor draws ids from the class attribute
  \<^verbatim>\<open>Command._id\<close>, and the two socket functions: \<^verbatim>\<open>writeMessage\<close> frames a
  command (8-byte payload length, 4-byte id, 2-byte type code, little-endian, then
  the payload) and pushes it through a \<^verbatim>\<open>select\<close>/\<^verbatim>\<open>send\<close> loop;
  \<^verbatim>\<open>readMessage\<close> polls, reads the 14-byte header, accumulates the payload with
  repeated \<^verbatim>\<open>recv\<close> calls and builds a \<^verbatim>\<open>Command\<close>, mapping every exception
  to \<^verbatim>\<open>ClientDisconnectedException\<close>. The room server (not in this repository's
  sources) calls the two socket functions and the constructor from one thread per
  client.

  \<^bold>\<open>The theories.\<close>
  \<^item> \<open>Prelude\<close>: bytes as lists of \<open>8 word\<close>, the exceptions as the datatype
    \<open>exc\<close>, exception propagation (\<open>sbind\<close>), Python slicing (\<open>py_slice\<close>), and
    \<^verbatim>\<open>int.to_bytes\<close>/\<^verbatim>\<open>int.from_bytes\<close> (\<open>int_to_le\<close>, \<open>int_from_le\<close>) with
    their round-trip lemmas, collected in \<open>codec_simps\<close>.
  \<^item> \<open>MessageTypes\<close> (lines 11--44, 55--56): the three enumerations as datatypes,
    \<^verbatim>\<open>.value\<close> as \<open>MessageType_value\<close>, the \<open>enum\<close> class instance, and
    \<^verbatim>\<open>intToMessageType\<close> as a search of the member list that raises
    \<^verbatim>\<open>ValueError\<close>.
  \<^item> \<open>ScalarCodec\<close> (lines 49--53, 58--119): \<^verbatim>\<open>intToBytes\<close>,
    \<^verbatim>\<open>bytesToInt\<close> and every scalar encoder/decoder, over a model of
    \<^verbatim>\<open>struct\<close> for the formats \<^verbatim>\<open>'f'\<close> and \<^verbatim>\<open>'I'\<close> (native order taken as
    little-endian, 4-byte items; \<^verbatim>\<open>unpack\<close> raises unless the slice has exactly the
    format's size). Decoders take the buffer and an offset and return the value and
    the next offset; the round trips are stated at any offset of any buffer.
  \<^item> \<open>CommandModel\<close> (lines 218--226): the \<^verbatim>\<open>Command\<close> record, the constructor
    \<open>Command_init\<close> threading \<^verbatim>\<open>Command._id\<close> (initially 100), runs of
    constructions (\<open>Command_inits\<close>), and an \<^theory_text>\<open>inductive\<close> step relation
    \<open>ctor_step\<close> in which several threads execute the constructor at bytecode
    granularity (read the counter into \<^verbatim>\<open>self.id\<close>; load it; store it plus one),
    with its reachable states \<open>ctor_reach\<close>.
  \<^item> \<open>Socket\<close>: the environment, modelled from the Python documentation, not
    from code: a record of the bytes the peer will still deliver (\<open>rx\<close>), how the
    peer ends (\<open>Open\<close>, \<open>Closed\<close>, \<open>Reset\<close>), the chunk sizes successive
    \<^verbatim>\<open>recv\<close> calls return (\<open>grants\<close>; when used up, \<^verbatim>\<open>recv(n)\<close> returns all
    it can), the bytes accepted by \<^verbatim>\<open>send\<close> (\<open>tx\<close>) and the infinite stream of
    \<^verbatim>\<open>select\<close>/\<^verbatim>\<open>send\<close> outcomes (\<open>wsched\<close>). A \<^verbatim>\<open>recv\<close> on an empty
    socket with an open peer blocks for ever; at end of stream it returns
    \<^verbatim>\<open>b''\<close>. The allocation \<^verbatim>\<open>recv(n)\<close> makes first (OverflowError
    for \<open>n \<ge> 2^63\<close>, MemoryError when it fails) is not represented.
  \<^item> \<open>Transport\<close> (lines 172--215): \<open>frame_buffer\<close> (lines 203--207),
    \<open>parse_header\<close> (181--183), the payload loop \<open>recv_loop\<close> (186--189) and the
    send loop \<open>send_loop\<close> (210--215), both \<^theory_text>\<open>partial_function (option)\<close>
    so that a loop that never ends is the value \<open>None\<close>, and \<open>readMessage\<close>,
    \<open>read_body\<close>, \<open>writeMessage\<close>. The frame format of the specification
    (\<open>frame_ok\<close>, \<open>raw_header\<close>, \<open>frame_header\<close>, \<open>frame_bytes\<close>) is defined
    beside them as the abstract contract, and \<open>readMessages\<close> and
    \<open>writeMessages\<close> are the server's way of calling \<open>readMessage\<close> and
    \<open>writeMessage\<close> (repeated calls on one socket, in order), modelled from the
    specification since the server is not in the sources.
  \<^item> \<open>StringCodec\<close> (lines 71--80): strings as lists of code points,
    \<^verbatim>\<open>str.encode()\<close>/\<^verbatim>\<open>bytes.decode()\<close> as strict UTF-8
    (\<open>utf8_char\<close>, \<open>utf8_decode_nat\<close>; built-ins, modelled from RFC 3629), and
    \<open>encodeString\<close>, \<open>decodeString\<close>.
  \<^item> \<open>ArrayCodec\<close> (lines 121--170): \<open>encodeStringArray\<close>,
    \<open>decodeStringArray\<close>, the generic \<open>decodeArray\<close> with its five instances,
    and \<open>decodeIntArray\<close>, each loop a function on the iterations left. The
    specification's array layout \<open>encodeArray_spec\<close> stands in for the encoders
    the repository does not have.
  \<^item> This theory: the property that spans the components, that what
    \<open>writeMessage\<close> puts on the wire \<open>readMessage\<close> reads back as the same command.

  \<^bold>\<open>What is proved.\<close> Round trips of every scalar codec at any offset; the
  refinement of the specified frame layout by \<open>frame_buffer\<close>; the receive round
  trip for every chunking of the payload; delivery of exactly the frame bytes by the
  send loop when the socket is writable often enough; the error results of every
  function (overflow, \<^verbatim>\<open>struct.error\<close>, \<^verbatim>\<open>IndexError\<close>, disconnects,
  Unicode errors). UTF-8 decoding inverts encoding on every string of scalar values,
  so strings and string arrays round-trip at any offset; \<open>decodeArray\<close>
  round-trips every count-prefixed array of its schema, the empty one included;
  \<open>decodeIntArray\<close> equals \<open>decodeArray\<close> with the tuples flattened except
  on an empty array, where it raises \<^verbatim>\<open>UnboundLocalError\<close>; and
  \<open>decodeString\<close> accepts a declared length past the end of the buffer and
  returns an offset beyond it. Frames arriving back to back are read in order, one
  frame per call, and the commands get exactly the ids of the same constructions
  made one after another (\<open>readMessages\<close> against \<open>Command_inits\<close>, by
  induction on the frames). \<open>decodeArray\<close> raises \<^verbatim>\<open>struct.error\<close> when the
  buffer ends inside the announced elements. On a socket that is always writable,
  \<open>writeMessages\<close> sends the frames of a list of commands in order and stops with
  \<^verbatim>\<open>OverflowError\<close> at the first that cannot be framed. The loops' non-termination is proved as such: \<open>writeMessage\<close> never returns on a
  socket that never becomes writable (no timeout), and \<open>readMessage\<close> never returns
  when the peer closes inside a payload whose declared length is below 2^20
  (\<^verbatim>\<open>recv\<close> returns \<^verbatim>\<open>b''\<close> for ever and the loop makes no progress;
  the bound keeps the statement clear of the allocation failures \<^verbatim>\<open>recv\<close> has
  for huge sizes, which the socket model does not represent): both by the loops' \<open>raw_induct\<close> rules. Other
  behaviours the specification does not expect are proved as theorems: a header
  delivered in pieces is taken for a disconnect and its bytes are lost; an unknown
  type code is reported as a disconnect; a frame with id 0 gets a fresh local id;
  a failing \<^verbatim>\<open>send\<close> escapes as \<^verbatim>\<open>OSError\<close>. For the id counter, ids of
  sequential constructions increase strictly, and explicit interleavings show two commands with
  the same id and a counter that decreases.

  \<^bold>\<open>Bounds and environment choices.\<close> The send schedule is an infinite stream;
  delivery is proved for any prefix with at least as many writable rounds as the
  frame has bytes (each writable round sends at least one byte), which is enough
  whatever the sizes. The receive side needs no bound: the payload loop is proved to
  return whenever the pending data covers the payload, by induction on the bytes
  still missing. The never-returning payload loop is stated for declared lengths
  below 2^20 (1 MiB): \<^verbatim>\<open>recv\<close> always allocates a buffer of that size, while
  for sizes of 2^63 and more CPython raises before reading, which turns into
  \<^verbatim>\<open>ClientDisconnectedException\<close>.

  \<^bold>\<open>Not modelled.\<close> The rounding of Python floats to single precision
  (a float is its 32-bit pattern); \<^verbatim>\<open>print\<close>; the unused module-level
  \<^verbatim>\<open>mutex\<close> other than by its absence from the constructor; timing of
  \<^verbatim>\<open>select\<close> (a socket is readable exactly when it has data or its peer has
  ended); the allocation failures of \<^verbatim>\<open>recv(n)\<close> for huge \<open>n\<close>; the Python code points above \<open>0x10FFFF\<close> (Python strings cannot hold
  them). The room server and client code outside \<^verbatim>\<open>src/broadcaster/common.py\<close>
  are not in the sources.
\<close>

text \<open>C1: A command that can be framed and is written by writeMessage on a socket that becomes writable often enough puts exactly its frame on the wire, and readMessage on a socket delivering those bytes returns the same command and leaves the counter unchanged.\<close>

theorem send_then_receive:
  assumes "frame_ok c" and "cmd_id c \<noteq> 0"
    and "\<forall>e\<in>set xs. e \<noteq> SendFails" and "length (frame_bytes c) \<le> count_writable xs"
    and "wsched w = xs @- later"
  shows "\<exists>w'. writeMessage (Some w) c = Some (Inr (), Some w') \<and> tx w' = tx w @ frame_bytes c \<and>
           (\<forall>r. rx r = frame_bytes c @ rest \<longrightarrow> grants r = [] \<longrightarrow>
              (\<exists>gs. readMessage (Some r) n = Some (Inr (Some c), Some (r\<lparr>rx := rest, grants := gs\<rparr>), n)))"
proof -
  obtain ws where send: "send_loop (frame_bytes c) (length (frame_bytes c) - 0) 0 w =
      Some (Inr (), w\<lparr>tx := tx w @ drop 0 (frame_bytes c), wsched := ws\<rparr>)"
    using send_loop_completes [of xs "frame_bytes c" 0 w later] assms(3-5) by auto
  have wr: "writeMessage (Some w) c =
      Some (Inr (), Some (w\<lparr>tx := tx w @ frame_bytes c, wsched := ws\<rparr>))"
    using send assms(1) by (simp add: writeMessage_def frame_buffer_ok)
  have "\<exists>gs. readMessage (Some r) n = Some (Inr (Some c), Some (r\<lparr>rx := rest, grants := gs\<rparr>), n)"
    if "rx r = frame_bytes c @ rest" and "grants r = []" for r
    using readMessage_frame [OF assms(1) that(1), of n] that(2) assms(2)
    by (simp add: Command_init_given Command_eq_fields)
  with wr show ?thesis by auto
qed

theorem send_then_receive_witness:
  "tx (demo_sock [] Open [] (replicate 16 (Writable 1) @- sconst NotWritable)) = [] \<and>
   (\<exists>w'. writeMessage (Some (demo_sock [] Open [] (replicate 16 (Writable 1) @- sconst NotWritable)))
          demo_command = Some (Inr (), Some w') \<and> tx w' = frame_bytes demo_command) \<and>
   (\<exists>gs. readMessage (Some (demo_sock (frame_bytes demo_command @ []) Open [] (sconst NotWritable))) 100 =
          Some (Inr (Some demo_command),
                Some ((demo_sock (frame_bytes demo_command @ []) Open [] (sconst NotWritable))
                        \<lparr>rx := [], grants := gs\<rparr>), 100))"
proof -
  have "\<exists>w'. writeMessage (Some (demo_sock [] Open [] (replicate 16 (Writable 1) @- sconst NotWritable)))
          demo_command = Some (Inr (), Some w') \<and>
        tx w' = tx (demo_sock [] Open [] (replicate 16 (Writable 1) @- sconst NotWritable)) @
                frame_bytes demo_command \<and>
        (\<forall>r. rx r = frame_bytes demo_command @ [] \<longrightarrow> grants r = [] \<longrightarrow>
           (\<exists>gs. readMessage (Some r) 100 =
                   Some (Inr (Some demo_command), Some (r\<lparr>rx := [], grants := gs\<rparr>), 100)))"
    by (rule send_then_receive [where xs = "replicate 16 (Writable 1)" and later = "sconst NotWritable"])
      (simp_all add: demo_command_ok demo_sock_def length_frame_bytes_demo, simp add: demo_command_def)
  then obtain w' where wr: "writeMessage (Some (demo_sock [] Open [] (replicate 16 (Writable 1) @- sconst NotWritable)))
          demo_command = Some (Inr (), Some w')"
      and tx: "tx w' = tx (demo_sock [] Open [] (replicate 16 (Writable 1) @- sconst NotWritable)) @
                frame_bytes demo_command"
      and rd: "\<forall>r. rx r = frame_bytes demo_command @ [] \<longrightarrow> grants r = [] \<longrightarrow>
           (\<exists>gs. readMessage (Some r) 100 =
                   Some (Inr (Some demo_command), Some (r\<lparr>rx := [], grants := gs\<rparr>), 100))"
    by blast
  have "\<exists>gs. readMessage (Some (demo_sock (frame_bytes demo_command @ []) Open [] (sconst NotWritable))) 100 =
          Some (Inr (Some demo_command),
                Some ((demo_sock (frame_bytes demo_command @ []) Open [] (sconst NotWritable))
                        \<lparr>rx := [], grants := gs\<rparr>), 100)"
    using rd [rule_format, of "demo_sock (frame_bytes demo_command @ []) Open [] (sconst NotWritable)"]
    by (simp add: demo_sock_def)
  with wr tx show ?thesis by (auto simp: demo_sock_def)
qed

end
